theory Spec2Isabelle
  imports Main
begin

section \<open>Python values, strings and dictionaries\<close>

text \<open>
  The service (\<^verbatim>\<open>src/api/download_service.py\<close>) works on Python dictionaries with string
  keys. A dictionary is a map from keys to values; the values that occur are strings,
  integers and \<^verbatim>\<open>None\<close>. Strings are lists of characters with code points below 256.
  A Python exception is a value of type \<open>exn\<close>, and a computation that may raise has a
  result of type \<open>exn + 'a\<close>.
\<close>

datatype pyval = PStr string | PInt int | PNone

datatype exn =
    KeyError string
  | AttributeError string string
  | HTTPException nat string
  | Exception string

type_synonym song = "string \<rightharpoonup> pyval"

text \<open>Truth value of a Python object in a condition.\<close>

fun truthy :: "pyval \<Rightarrow> bool" where
  "truthy (PStr s) = (s \<noteq> [])"
| "truthy (PInt i) = (i \<noteq> 0)"
| "truthy PNone = False"

text \<open>\<^verbatim>\<open>d.get(k)\<close> in a condition: a missing key gives \<^verbatim>\<open>None\<close>, which is false.\<close>

definition get_truthy :: "song \<Rightarrow> string \<Rightarrow> bool" where
  "get_truthy d k = (case d k of None \<Rightarrow> False | Some v \<Rightarrow> truthy v)"

text \<open>\<^verbatim>\<open>d[k]\<close> raises \<^verbatim>\<open>KeyError\<close> on a missing key.\<close>

definition getitem :: "song \<Rightarrow> string \<Rightarrow> exn + pyval" where
  "getitem d k = (case d k of None \<Rightarrow> Inl (KeyError k) | Some v \<Rightarrow> Inr v)"

text \<open>
  A string method (\<^verbatim>\<open>strip\<close>, \<^verbatim>\<open>replace\<close>, \<^verbatim>\<open>lower\<close>) exists on strings only; on
  another value the call raises \<^verbatim>\<open>AttributeError\<close> with the type and the name of the
  method.
\<close>

fun as_str :: "string \<Rightarrow> pyval \<Rightarrow> exn + string" where
  "as_str method (PStr s) = Inr s"
| "as_str method (PInt i) = Inl (AttributeError ''int'' method)"
| "as_str method PNone = Inl (AttributeError ''NoneType'' method)"

text \<open>Sequencing of computations that may raise.\<close>

fun then_do :: "exn + 'a \<Rightarrow> ('a \<Rightarrow> exn + 'b) \<Rightarrow> exn + 'b" where
  "then_do (Inl e) f = Inl e"
| "then_do (Inr x) f = f x"

text \<open>\<^verbatim>\<open>str(e)\<close> of an exception: a \<^verbatim>\<open>KeyError\<close> prints its key in quotes.\<close>

fun str_exn :: "exn \<Rightarrow> string" where
  "str_exn (KeyError k) = [CHR 0x27] @ k @ [CHR 0x27]"
| "str_exn (AttributeError t method) =
     [CHR 0x27] @ t @ [CHR 0x27] @ '' object has no attribute '' @ [CHR 0x27] @ method
       @ [CHR 0x27]"
| "str_exn (HTTPException code detail) = detail"
| "str_exn (Exception m) = m"

subsection \<open>Decimal numerals\<close>

definition digit_char :: "nat \<Rightarrow> char" where
  "digit_char d = ''0123456789'' ! d"

fun str_nat :: "nat \<Rightarrow> string" where
  "str_nat n = (if 10 \<le> n then str_nat (n div 10) @ [digit_char (n mod 10)]
                else [digit_char n])"

declare str_nat.simps [simp del]

definition str_int :: "int \<Rightarrow> string" where
  "str_int i = (if i < 0 then CHR ''-'' # str_nat (nat (- i)) else str_nat (nat i))"

text \<open>A value inside an f-string.\<close>

fun format_val :: "pyval \<Rightarrow> string" where
  "format_val (PStr s) = s"
| "format_val (PInt i) = str_int i"
| "format_val PNone = ''None''"

subsection \<open>String methods\<close>

text \<open>
  \<^verbatim>\<open>str.isspace\<close> on the code points below 256: tab to carriage return, the four
  separators 28 to 31, space, next line (133) and no-break space (160).
\<close>

definition is_space :: "char \<Rightarrow> bool" where
  "is_space c \<longleftrightarrow> c \<in> set [CHR 0x09, CHR 0x0A, CHR 0x0B, CHR 0x0C, CHR 0x0D,
     CHR 0x1C, CHR 0x1D, CHR 0x1E, CHR 0x1F, CHR 0x20, CHR 0x85, CHR 0xA0]"

definition strip :: "string \<Rightarrow> string" where
  "strip s = rev (dropWhile is_space (rev (dropWhile is_space s)))"

text \<open>\<^verbatim>\<open>sub in s\<close> for strings.\<close>

fun contains :: "string \<Rightarrow> string \<Rightarrow> bool" where
  "contains [] sub = (sub = [])"
| "contains (c # cs) sub = (take (length sub) (c # cs) = sub \<or> contains cs sub)"

text \<open>
  \<^verbatim>\<open>s.replace(old, '')\<close> for a non-empty \<open>old\<close>: the occurrences of \<open>old\<close> are removed
  from left to right, without overlap.
\<close>

function remove_all :: "string \<Rightarrow> string \<Rightarrow> string" where
  "remove_all old [] = []"
| "remove_all old (c # cs) =
     (if old \<noteq> [] \<and> take (length old) (c # cs) = old
      then remove_all old (drop (length old) (c # cs))
      else c # remove_all old cs)"
  by pat_completeness auto
termination
  by (relation "measure (\<lambda>(old, s). length s)") (auto simp: Suc_le_eq)

text \<open>\<^verbatim>\<open>str.lower\<close> on the code points below 256.\<close>

definition lower_char :: "char \<Rightarrow> char" where
  "lower_char c =
     (let n = (of_char c :: nat)
      in if (65 \<le> n \<and> n \<le> 90) \<or> (192 \<le> n \<and> n \<le> 222 \<and> n \<noteq> 215)
         then char_of (n + 32) else c)"

definition lower :: "string \<Rightarrow> string" where
  "lower s = map lower_char s"

text \<open>\<^verbatim>\<open>sep.join(xs)\<close>.\<close>

fun join :: "string \<Rightarrow> string list \<Rightarrow> string" where
  "join sep [] = []"
| "join sep [x] = x"
| "join sep (x # y # ys) = x @ sep @ join sep (y # ys)"

text \<open>
  \<^verbatim>\<open>os.path.join(a, b)\<close> on a POSIX system: an absolute second component replaces the
  first.
\<close>

definition path_join :: "string \<Rightarrow> string \<Rightarrow> string" where
  "path_join a b =
     (if b \<noteq> [] \<and> hd b = CHR ''/'' then b
      else if a = [] \<or> last a = CHR ''/'' then a @ b
      else a @ ''/'' @ b)"

section \<open>External services\<close>

text \<open>
  The metadata directory, the image archive and the lyric providers are reached through
  \<^verbatim>\<open>requests.get\<close>. A call either raises (no connection, timeout) or
  gives a status code and a body; \<^verbatim>\<open>response.json()\<close> raises when the body is not the
  JSON the code goes on to read, which is the body \<open>None\<close>.
\<close>

datatype 'a response = Transport_error string | Response nat "'a option"

record cover_image =
  img_front :: bool
  img_small :: "string option"

record lrc_result =
  artistName :: string
  trackName :: string
  plainLyrics :: "string option"

record mb_track =
  tr_recording :: "string option option"
  tr_number :: pyval
  tr_length :: pyval

record mb_release =
  rel_title :: "string option"
  rel_id :: "string option"
  rel_media :: "mb_track list list"

record mb_tag =
  tag_name :: "string option"
  tag_count :: "int option"

datatype artist_credit = Credit_dict "string option" | Credit_other string

record mb_recording =
  rec_title :: "string option"
  rec_id :: "string option"
  rec_artist_credit :: "artist_credit list"
  rec_releases :: "mb_release list"
  rec_tags :: "mb_tag list"

text \<open>
  What the fields stand for in the JSON: \<open>img_small\<close> is
  \<^verbatim>\<open>img['thumbnails']['small']\<close> (\<open>None\<close> when a key is missing); \<open>tr_recording\<close>
  is \<open>None\<close> when \<^verbatim>\<open>track.get('recording')\<close> is false and otherwise holds
  \<^verbatim>\<open>track['recording'].get('id')\<close>; \<open>rel_media\<close> lists, for every medium of the
  release, its \<^verbatim>\<open>tracks\<close>; a missing list is the empty list, a missing string is
  \<open>None\<close>.
\<close>

record enrich_env =
  mb_search :: "string \<Rightarrow> mb_recording list response"
  cover_http :: "string \<Rightarrow> cover_image list response"
  lyrics_ovh :: "string \<Rightarrow> string option response"
  lrclib :: "string \<Rightarrow> lrc_result list response"

definition truthy_str :: "string option \<Rightarrow> bool" where
  "truthy_str v = (case v of None \<Rightarrow> False | Some s \<Rightarrow> s \<noteq> [])"

subsection \<open>Cover art\<close>

definition get_album_cover_art ::
  "(string \<Rightarrow> cover_image list response) \<Rightarrow> string \<Rightarrow> string option" where
  "get_album_cover_art http release_id =
     (case http (''http://coverartarchive.org/release/'' @ release_id) of
        Transport_error e \<Rightarrow> None
      | Response code body \<Rightarrow>
          if code = 200 then
            (case body of
               None \<Rightarrow> None
             | Some images \<Rightarrow>
                 if images \<noteq> [] then
                   (case find img_front images of
                      Some front_cover \<Rightarrow> img_small front_cover
                    | None \<Rightarrow> img_small (hd images))
                 else None)
          else None)"

subsection \<open>Lyrics\<close>

text \<open>The first provider: text of more than 10 characters that is not blank wins.\<close>

definition lyrics_from_ovh ::
  "(string \<Rightarrow> string option response) \<Rightarrow> string \<Rightarrow> string \<Rightarrow> string option" where
  "lyrics_from_ovh http artist_clean title_clean =
     (case http (''https://api.lyrics.ovh/v1/'' @ artist_clean @ ''/'' @ title_clean) of
        Transport_error e \<Rightarrow> None
      | Response code body \<Rightarrow>
          if code = 200 then
            (case body of
               Some (Some text) \<Rightarrow>
                 if text \<noteq> [] \<and> 10 < length text \<and> strip text \<noteq> []
                 then Some (strip text) else None
             | _ \<Rightarrow> None)
          else None)"

text \<open>
  The second provider: the first result whose artist and title are close enough and whose
  plain lyrics have more than 20 characters.
\<close>

fun lrc_best_match :: "string \<Rightarrow> string \<Rightarrow> lrc_result list \<Rightarrow> string option" where
  "lrc_best_match artist_clean title_clean [] = None"
| "lrc_best_match artist_clean title_clean (r # rs) =
     (let result_artist = lower (artistName r);
          result_title = lower (trackName r)
      in if contains (remove_all ''and'' (remove_all ''&'' result_artist))
                     (remove_all ''and'' (remove_all ''&'' artist_clean))
            \<and> (contains result_title title_clean \<or> contains title_clean result_title)
            \<and> truthy_str (plainLyrics r) \<and> 20 < length (the (plainLyrics r))
         then plainLyrics r
         else lrc_best_match artist_clean title_clean rs)"

definition lyrics_from_lrclib ::
  "(string \<Rightarrow> lrc_result list response) \<Rightarrow> string \<Rightarrow> string \<Rightarrow> string option" where
  "lyrics_from_lrclib http artist_clean title_clean =
     (case http (''https://lrclib.net/api/search?q='' @ artist_clean @ '' '' @ title_clean) of
        Transport_error e \<Rightarrow> None
      | Response code body \<Rightarrow>
          if code = 200 then
            (case body of
               None \<Rightarrow> None
             | Some results \<Rightarrow> lrc_best_match artist_clean title_clean results)
          else None)"

text \<open>
  \<^verbatim>\<open>get_song_lyrics\<close>: each provider sits in its own \<^verbatim>\<open>try\<close>, so a failing provider
  is a provider without data; only the cleaning of the two arguments can raise.
\<close>

definition get_song_lyrics :: "enrich_env \<Rightarrow> pyval \<Rightarrow> pyval \<Rightarrow> exn + string option" where
  "get_song_lyrics env artist title =
     then_do (as_str ''lower'' artist) (\<lambda>a.
     then_do (as_str ''lower'' title) (\<lambda>t.
       let artist_clean = strip (remove_all '' feat.'' (remove_all '' ft.'' (lower a)));
           title_clean = strip (remove_all '' (live)'' (remove_all '' - live'' (lower t)))
       in case lyrics_from_ovh (lyrics_ovh env) artist_clean title_clean of
            Some lyrics \<Rightarrow> Inr (Some lyrics)
          | None \<Rightarrow>
              (case lyrics_from_lrclib (lrclib env) artist_clean title_clean of
                 Some lyrics \<Rightarrow> Inr (Some lyrics)
               | None \<Rightarrow> Inr None)))"

section \<open>Metadata enrichment\<close>

text \<open>
  \<^verbatim>\<open>enrich_metadata\<close> copies the song and writes into the copy what the directory
  returns for the first recording: title, first credited artist, album and cover of the
  first release, the names of the tags with a positive count (three at most), and the
  number and length of the track that carries the recording. The helper functions below
  are the blocks of its body, in the order of the source.
\<close>

definition merge_title :: "mb_recording \<Rightarrow> song \<Rightarrow> song" where
  "merge_title recording s =
     (if truthy_str (rec_title recording)
      then s(''title'' \<mapsto> PStr (the (rec_title recording))) else s)"

definition merge_artist :: "mb_recording \<Rightarrow> song \<Rightarrow> song" where
  "merge_artist recording s =
     (case rec_artist_credit recording of
        [] \<Rightarrow> s
      | credit # _ \<Rightarrow>
          (let artist_name =
                 (case credit of
                    Credit_dict n \<Rightarrow> (case n of None \<Rightarrow> [] | Some x \<Rightarrow> x)
                  | Credit_other t \<Rightarrow> t)
           in if artist_name \<noteq> [] then s(''artist'' \<mapsto> PStr artist_name) else s))"

definition merge_release ::
  "(string \<Rightarrow> cover_image list response) \<Rightarrow> mb_recording \<Rightarrow> song \<Rightarrow> song" where
  "merge_release http recording s =
     (case rec_releases recording of
        [] \<Rightarrow> s
      | release # _ \<Rightarrow>
          (let s1 = (if truthy_str (rel_title release)
                     then s(''album'' \<mapsto> PStr (the (rel_title release))) else s)
           in if truthy_str (rel_id release) then
                (case get_album_cover_art http (the (rel_id release)) of
                   None \<Rightarrow> s1
                 | Some cover_url \<Rightarrow>
                     if cover_url \<noteq> [] then s1(''cover_url'' \<mapsto> PStr cover_url) else s1)
              else s1))"

text \<open>
  The genre tags: \<^verbatim>\<open>tag['name']\<close> raises \<^verbatim>\<open>KeyError\<close> for a counted tag without a
  name.
\<close>

fun genre_tags :: "mb_tag list \<Rightarrow> exn + string list" where
  "genre_tags [] = Inr []"
| "genre_tags (tag # tags) =
     (if 0 < (case tag_count tag of None \<Rightarrow> 0 | Some c \<Rightarrow> c) then
        (case tag_name tag of
           None \<Rightarrow> Inl (KeyError ''name'')
         | Some name \<Rightarrow> then_do (genre_tags tags) (\<lambda>names. Inr (name # names)))
      else genre_tags tags)"

definition merge_genre :: "mb_recording \<Rightarrow> song \<Rightarrow> exn + song" where
  "merge_genre recording s =
     (if rec_tags recording \<noteq> [] then
        then_do (genre_tags (rec_tags recording)) (\<lambda>names.
          if names \<noteq> [] then Inr (s(''genre'' \<mapsto> PStr (join '', '' (take 3 names))))
          else Inr s)
      else Inr s)"

text \<open>
  The track loop: in every medium the first track of the recording sets number and
  length, and \<^verbatim>\<open>break\<close> ends the loop over this medium only.
\<close>

fun scan_tracks :: "string option \<Rightarrow> mb_track list \<Rightarrow> song \<Rightarrow> song" where
  "scan_tracks rid [] s = s"
| "scan_tracks rid (track # tracks) s =
     (if tr_recording track = Some rid then
        (let s1 = (if truthy (tr_number track)
                   then s(''track_number'' \<mapsto> tr_number track) else s)
         in if truthy (tr_length track)
            then s1(''duration_ms'' \<mapsto> tr_length track) else s1)
      else scan_tracks rid tracks s)"

definition merge_tracks :: "mb_recording \<Rightarrow> song \<Rightarrow> song" where
  "merge_tracks recording s =
     fold (\<lambda>release s1. fold (scan_tracks (rec_id recording)) (rel_media release) s1)
       (rec_releases recording) s"

definition merge_recording :: "enrich_env \<Rightarrow> mb_recording \<Rightarrow> song \<Rightarrow> exn + song" where
  "merge_recording env recording s =
     then_do (merge_genre recording
                (merge_release (cover_http env) recording
                   (merge_artist recording (merge_title recording s))))
       (\<lambda>s4. Inr (merge_tracks recording s4))"

definition merge_lyrics :: "enrich_env \<Rightarrow> song \<Rightarrow> exn + song" where
  "merge_lyrics env s =
     then_do (getitem s ''artist'') (\<lambda>artist.
     then_do (getitem s ''title'') (\<lambda>title.
     then_do (get_song_lyrics env artist title) (\<lambda>lyrics.
       if truthy_str lyrics then Inr (s(''lyrics'' \<mapsto> PStr (the lyrics))) else Inr s)))"

text \<open>The query sent to the directory (lines 212 to 217).\<close>

definition recording_query :: "string \<Rightarrow> string \<Rightarrow> string" where
  "recording_query a t =
     (let artist_clean =
            strip (remove_all '' & '' (remove_all '' feat.'' (remove_all '' ft.'' a)));
          title_clean = strip (remove_all '' (live)'' (remove_all '' - live'' t))
      in ''artist:'' @ [CHR 0x22] @ artist_clean @ [CHR 0x22] @ '' AND recording:''
           @ [CHR 0x22] @ title_clean @ [CHR 0x22])"

text \<open>The body of the \<^verbatim>\<open>try\<close> block.\<close>

definition enrich_body :: "enrich_env \<Rightarrow> song \<Rightarrow> exn + song" where
  "enrich_body env s =
     then_do (getitem s ''artist'') (\<lambda>artist.
     then_do (as_str ''replace'' artist) (\<lambda>a.
     then_do (getitem s ''title'') (\<lambda>title.
     then_do (as_str ''replace'' title) (\<lambda>t.
       case mb_search env (recording_query a t) of
         Transport_error e \<Rightarrow> Inl (Exception e)
       | Response code body \<Rightarrow>
           if code = 200 then
             (case body of
                None \<Rightarrow> Inl (Exception ''response is not JSON'')
              | Some recordings \<Rightarrow>
                  (case recordings of
                     [] \<Rightarrow> merge_lyrics env s
                   | recording # _ \<Rightarrow>
                       then_do (merge_recording env recording s) (merge_lyrics env)))
           else merge_lyrics env s))))"

text \<open>
  \<^verbatim>\<open>enrich_metadata(song, filepath)\<close>: any exception of the body gives the original
  song back.
\<close>

definition enrich_metadata :: "enrich_env \<Rightarrow> song \<Rightarrow> string \<Rightarrow> song" where
  "enrich_metadata env s filepath =
     (case enrich_body env s of Inl e \<Rightarrow> s | Inr enhanced_song \<Rightarrow> enhanced_song)"

section \<open>Tag finalisation\<close>

text \<open>
  \<^verbatim>\<open>fix_metadata\<close> first asks for the version of the transcoder, then runs it on the
  file and moves the result over the file. The file system is a map from paths to file
  sizes.
\<close>

datatype probe_result = Probe_ok | Probe_missing | Probe_error string

datatype run_result = Run_exit int string | Run_timeout | Run_error string

record ffmpeg_env =
  ff_probe :: probe_result
  ff_run :: "string list \<Rightarrow> run_result"
  ff_replace_ok :: bool

definition unquote :: "string \<Rightarrow> string" where
  "unquote s = strip (filter (\<lambda>c. c \<noteq> CHR 0x22 \<and> c \<noteq> CHR 0x27) s)"

text \<open>The three cleaned tag values; a missing or non-string value raises.\<close>

definition clean_tags :: "song \<Rightarrow> exn + (string \<times> string \<times> string)" where
  "clean_tags s =
     then_do (getitem s ''artist'') (\<lambda>artist.
     then_do (as_str ''replace'' artist) (\<lambda>a.
     then_do (getitem s ''title'') (\<lambda>title.
     then_do (as_str ''replace'' title) (\<lambda>t.
     then_do (as_str ''replace''
                (case s ''album'' of None \<Rightarrow> PStr ''Downloaded Music'' | Some v \<Rightarrow> v))
       (\<lambda>al. Inr (unquote a, unquote t, unquote al))))))"

text \<open>The command line of the transcoder run (lines 433 to 439).\<close>

definition ffmpeg_cmd :: "string \<Rightarrow> string \<Rightarrow> string \<Rightarrow> string \<Rightarrow> string list" where
  "ffmpeg_cmd filepath artist title album =
     [''ffmpeg'', ''-y'', ''-i'', filepath,
      ''-metadata'', ''artist='' @ artist,
      ''-metadata'', ''title='' @ title,
      ''-metadata'', ''album='' @ album,
      ''-c:a'', ''copy'', ''-f'', ''mp3'', filepath @ ''.tmp.mp3'']"

text \<open>
  The result is \<^verbatim>\<open>False\<close> when the file does not exist, when the run ends with another
  return code than 0, and when its output cannot be moved over the file. It is
  \<^verbatim>\<open>True\<close> when the output has been moved over the file, and also when the transcoder
  is not there, when asking for its version fails, when the run times out, and when
  anything else raises (the source comments: the file is still valid without the
  metadata fix).
\<close>

definition fix_metadata ::
  "ffmpeg_env \<Rightarrow> (string \<rightharpoonup> nat) \<Rightarrow> string \<Rightarrow> song \<Rightarrow> bool" where
  "fix_metadata env files filepath s =
     (if files filepath = None then False
      else case ff_probe env of
             Probe_missing \<Rightarrow> True
           | Probe_error e \<Rightarrow> True
           | Probe_ok \<Rightarrow>
               (case clean_tags s of
                  Inl e \<Rightarrow> True
                | Inr (artist, title, album) \<Rightarrow>
                    (case ff_run env (ffmpeg_cmd filepath artist title album) of
                       Run_exit returncode err \<Rightarrow>
                         if returncode = 0 then ff_replace_ok env else False
                     | Run_timeout \<Rightarrow> True
                     | Run_error e \<Rightarrow> True)))"

section \<open>The acquisition ladder\<close>

text \<open>
  One call of the acquisition tool, as \<^verbatim>\<open>download_song_async\<close> sees it: the process
  ends with a return code, its error and standard output, or the call times out after
  600 seconds, or it raises something else. Each result also says what is at the output
  path afterwards: the size of the file, or \<open>None\<close> when there is no file.
\<close>

datatype tool_result =
    Finished int string string "nat option"
  | Timed_out "nat option"
  | Crashed string "nat option"

text \<open>
  The tool is asked by attempt number, output path and search query; the other options
  of the command line are constants of the source.
\<close>

text \<open>
  Removing the output file can fail; \<open>os_remove i k\<close> says whether, in attempt \<open>i\<close>,
  the call on line 164 (\<open>k = 0\<close>) or the one on line 188 (\<open>k = 1\<close>) succeeds.
\<close>

record dl_env =
  yt_dlp :: "nat \<Rightarrow> string \<Rightarrow> string \<Rightarrow> tool_result"
  os_remove :: "nat \<Rightarrow> nat \<Rightarrow> bool"
  enrich_services :: enrich_env
  ffmpeg :: ffmpeg_env

text \<open>
  The state a download works on: the files, and the queries handed to the tool so far
  (the tool calls are the effect of the ladder, recorded in the order they happen).
\<close>

record dl_state =
  files :: "string \<rightharpoonup> nat"
  invoked :: "string list"

text \<open>Lines 95 to 111: the list of search queries.\<close>

definition build_search_queries :: "song \<Rightarrow> exn + string list" where
  "build_search_queries s =
     (if get_truthy s ''query'' then
        then_do (getitem s ''query'') (\<lambda>q. Inr [format_val q])
      else
        then_do (getitem s ''artist'') (\<lambda>artist.
        then_do (as_str ''strip'' artist) (\<lambda>a.
        then_do (getitem s ''title'') (\<lambda>title.
        then_do (as_str ''strip'' title) (\<lambda>t.
          let artist_clean = strip a; title_clean = strip t
          in Inr [artist_clean @ '' '' @ title_clean @ '' official'',
                  artist_clean @ '' '' @ title_clean,
                  title_clean @ '' '' @ artist_clean,
                  artist_clean @ '' '' @ title_clean @ '' audio'',
                  artist_clean @ '' '' @ title_clean @ '' official audio lyrics''])))))"

text \<open>The error text of a failed process (lines 169 to 175).\<close>

definition detailed_error :: "int \<Rightarrow> string \<Rightarrow> string \<Rightarrow> string" where
  "detailed_error returncode err out =
     (let error_msg = (if err \<noteq> [] then strip err else ''Unknown error'');
          stdout = (if out \<noteq> [] then strip out else ''No output'');
          msg = ''yt-dlp failed (exit code: '' @ str_int returncode @ ''): '' @ error_msg
      in if stdout \<noteq> [] then msg @ '' | stdout: '' @ take 200 stdout @ ''...'' else msg)"

text \<open>
  \<^verbatim>\<open>os.remove\<close> inside \<^verbatim>\<open>try\<close> with a bare \<^verbatim>\<open>except: pass\<close>: a removal that fails
  leaves the files as they are and is not reported. The clean-up between two attempts
  (lines 186 to 190) removes the output file if there is one.
\<close>

definition remove_quietly ::
  "bool \<Rightarrow> string \<Rightarrow> (string \<rightharpoonup> nat) \<Rightarrow> (string \<rightharpoonup> nat)" where
  "remove_quietly ok path fs = (if ok then fs(path := None) else fs)"

definition clean_up ::
  "bool \<Rightarrow> string \<Rightarrow> (string \<rightharpoonup> nat) \<Rightarrow> (string \<rightharpoonup> nat)" where
  "clean_up ok path fs = (if fs path \<noteq> None then remove_quietly ok path fs else fs)"

text \<open>
  The body of the loop over the queries (lines 117 to 197), for one query. A call that
  ends with return code 0 and a file of positive size leaves the function: the song is
  enriched, the tags are written, and the result is the flag of the tag step with the
  path or the text \<^verbatim>\<open>Metadata fix failed\<close>. An empty file is removed (line 164) and the
  clean-up follows; after a failed process the error text is kept and the clean-up
  follows. A call that times out or raises skips the clean-up. The first component is
  the value returned from inside the loop, if any; the second is \<^verbatim>\<open>last_error\<close>. The
  waits between the attempts change no state and are left out.
\<close>

definition query_attempt ::
  "dl_env \<Rightarrow> song \<Rightarrow> string \<Rightarrow> nat \<Rightarrow> string \<Rightarrow> string \<Rightarrow> dl_state
     \<Rightarrow> (bool \<times> string) option \<times> string \<times> dl_state" where
  "query_attempt env s output_path i query last_error st =
     (case yt_dlp env i output_path query of
        Finished returncode err out file \<Rightarrow>
          (let st1 = st\<lparr>files := (files st)(output_path := file),
                       invoked := invoked st @ [query]\<rparr>
           in if returncode = 0 \<and> file \<noteq> None then
                if 0 < the file then
                  (let enhanced_song = enrich_metadata (enrich_services env) s output_path;
                       metadata_success =
                         fix_metadata (ffmpeg env) (files st1) output_path enhanced_song
                   in (Some (metadata_success,
                             if metadata_success then output_path
                             else ''Metadata fix failed''),
                       last_error, st1))
                else (None, last_error,
                      st1\<lparr>files := clean_up (os_remove env i 1) output_path
                                      (remove_quietly (os_remove env i 0) output_path
                                         (files st1))\<rparr>)
              else (None, detailed_error returncode err out,
                    st1\<lparr>files := clean_up (os_remove env i 1) output_path (files st1)\<rparr>))
      | Timed_out file \<Rightarrow>
          (None, ''Download timeout (10 minutes)'',
           st\<lparr>files := (files st)(output_path := file), invoked := invoked st @ [query]\<rparr>)
      | Crashed e file \<Rightarrow>
          (None, e,
           st\<lparr>files := (files st)(output_path := file), invoked := invoked st @ [query]\<rparr>))"

text \<open>
  The loop (line 116) and what follows it (lines 203 and 204): \<open>n\<close> is the number of
  queries, \<open>i\<close> the number of the attempt.
\<close>

fun try_queries ::
  "dl_env \<Rightarrow> song \<Rightarrow> string \<Rightarrow> nat \<Rightarrow> nat \<Rightarrow> string list \<Rightarrow> string \<Rightarrow> dl_state
     \<Rightarrow> (bool \<times> string) \<times> dl_state" where
  "try_queries env s output_path n i [] last_error st =
     ((False, ''No suitable video found after trying '' @ str_nat n
         @ '' different search queries. Last error: '' @ last_error), st)"
| "try_queries env s output_path n i (query # queries) last_error st =
     (case query_attempt env s output_path i query last_error st of
        (Some result, last_error1, st1) \<Rightarrow> (result, st1)
      | (None, last_error1, st1) \<Rightarrow>
          try_queries env s output_path n (Suc i) queries last_error1 st1)"

text \<open>The output path (lines 90 and 91).\<close>

definition song_path :: "string \<Rightarrow> pyval \<Rightarrow> pyval \<Rightarrow> string" where
  "song_path output_dir artist title =
     path_join output_dir (format_val artist @ '' - '' @ format_val title @ ''.mp3'')"

text \<open>
  \<^verbatim>\<open>download_song_async(song, output_dir, download_id, song_index)\<close>. The file name is
  built from the artist and the title before anything else, so a song without one of
  them raises \<^verbatim>\<open>KeyError\<close> out of the function.
\<close>

definition download_song_async ::
  "dl_env \<Rightarrow> song \<Rightarrow> string \<Rightarrow> string \<Rightarrow> nat \<Rightarrow> dl_state
     \<Rightarrow> exn + ((bool \<times> string) \<times> dl_state)" where
  "download_song_async env s output_dir download_id song_index st =
     then_do (getitem s ''artist'') (\<lambda>artist.
     then_do (getitem s ''title'') (\<lambda>title.
       then_do (build_search_queries s) (\<lambda>search_queries.
         Inr (try_queries env s (song_path output_dir artist title)
                (length search_queries) 0 search_queries
                ''No search queries succeeded'' st))))"

section \<open>The single-song request\<close>

text \<open>
  \<^verbatim>\<open>SongRequest\<close> has a title, an artist and an optional album. The endpoint
  \<^verbatim>\<open>download_song_endpoint\<close> builds from it the dictionary that goes to the job runner.
\<close>

record song_request =
  req_title :: string
  req_artist :: string
  req_album :: "string option"

definition song_dict :: "song_request \<Rightarrow> song" where
  "song_dict req =
     [''title'' \<mapsto> PStr (strip (req_title req)),
      ''artist'' \<mapsto> PStr (strip (req_artist req)),
      ''album'' \<mapsto> PStr (if truthy_str (req_album req) then strip (the (req_album req))
                          else ''Unknown Album''),
      ''query'' \<mapsto> PStr (strip (req_artist req) @ '' '' @ strip (req_title req)
                          @ '' official audio lyrics'')]"

section \<open>The job table\<close>

text \<open>
  \<^verbatim>\<open>download_status_db\<close> maps a download id to the record of the job. A record is the
  dictionary that \<^verbatim>\<open>update_download_status\<close> builds from the status and its keyword
  arguments: a key that the call does not pass is absent from the record, which is the
  field value \<open>None\<close>. The entries of \<^verbatim>\<open>songs\<close> are dictionaries again. The key
  \<^verbatim>\<open>updated_at\<close> holds the wall-clock time of the call and is not modelled.
\<close>

type_synonym outcome = "string \<rightharpoonup> pyval"

record job =
  status :: string
  total_songs :: "nat option"
  completed_songs :: "nat option"
  failed_songs :: "nat option"
  progress :: "nat option"
  songs :: "outcome list option"
  playlist_path :: "string option"

type_synonym store = "string \<rightharpoonup> job"

text \<open>No keyword arguments; the status is set by \<^verbatim>\<open>update_download_status\<close>.\<close>

definition no_kwargs :: job where
  "no_kwargs = \<lparr>status = [], total_songs = None, completed_songs = None,
     failed_songs = None, progress = None, songs = None, playlist_path = None\<rparr>"

text \<open>The five keyword arguments that the job runner passes in its loop.\<close>

definition counters :: "nat \<Rightarrow> nat \<Rightarrow> nat \<Rightarrow> nat \<Rightarrow> outcome list \<Rightarrow> job" where
  "counters total_count done_count failed_count percent entries =
     no_kwargs\<lparr>total_songs := Some total_count, completed_songs := Some done_count,
       failed_songs := Some failed_count, progress := Some percent, songs := Some entries\<rparr>"

definition update_download_status :: "string \<Rightarrow> string \<Rightarrow> job \<Rightarrow> store \<Rightarrow> store" where
  "update_download_status download_id st kwargs db = db(download_id \<mapsto> kwargs\<lparr>status := st\<rparr>)"

definition get_download_status :: "string \<Rightarrow> store \<Rightarrow> job option" where
  "get_download_status download_id db = db download_id"

definition cancel_download_status :: "string \<Rightarrow> store \<Rightarrow> bool \<times> store" where
  "cancel_download_status download_id db =
     (case get_download_status download_id db of
        None \<Rightarrow> (False, db)
      | Some status_data \<Rightarrow>
          if status status_data \<in> set [''starting'', ''downloading'']
          then (True, update_download_status download_id ''cancelled'' no_kwargs db)
          else (False, db))"

section \<open>The playlist\<close>

text \<open>
  \<^verbatim>\<open>create_m3u_playlist\<close> writes two header lines and two lines for every song. Opening
  the file can fail, which is the flag \<open>writable\<close>; the file system records the size
  of the written text in bytes (a code point from 128 on takes two bytes in UTF-8).
\<close>

definition utf8_size :: "string \<Rightarrow> nat" where
  "utf8_size s = length s + length (filter (\<lambda>c. 128 \<le> (of_char c :: nat)) s)"

fun playlist_lines :: "outcome list \<Rightarrow> exn + string" where
  "playlist_lines [] = Inr []"
| "playlist_lines (entry # entries) =
     then_do (getitem entry ''artist'') (\<lambda>artist.
     then_do (getitem entry ''title'') (\<lambda>title.
     then_do (playlist_lines entries) (\<lambda>rest.
       let name = format_val artist @ '' - '' @ format_val title
       in Inr (''#EXTINF:240,'' @ name @ [CHR 0x0A] @ name @ ''.mp3'' @ [CHR 0x0A] @ rest))))"

definition create_m3u_playlist ::
  "bool \<Rightarrow> outcome list \<Rightarrow> string \<Rightarrow> string \<Rightarrow> dl_state \<Rightarrow> exn + (string \<times> dl_state)" where
  "create_m3u_playlist writable entries output_dir filename st =
     (let playlist_path = path_join output_dir filename
      in if \<not> writable then Inl (Exception ''cannot open the playlist file'')
         else then_do (playlist_lines entries) (\<lambda>body.
           let content = ''#EXTM3U'' @ [CHR 0x0A] @ ''#PLAYLIST:Tunes4R Download Service''
                        @ [CHR 0x0A] @ body
           in Inr (playlist_path,
                   st\<lparr>files := (files st)(playlist_path \<mapsto> utf8_size content)\<rparr>)))"

section \<open>The job runner\<close>

text \<open>
  \<^verbatim>\<open>process_song_download\<close> is a coroutine. It never reads the job table: it writes
  records into it and, in between, waits (for a download or for a timer), and while it
  waits the service answers other requests. Its effect on the job table is therefore a
  list of operations, in the order the coroutine performs them: a write, the start of the
  download of song \<open>i\<close> (which is also a wait), and a plain wait.
\<close>

datatype op = Update string string job | Download nat | Suspend

text \<open>The local variables of the runner.\<close>

record runner =
  completed :: nat
  failed :: nat
  downloaded_songs :: "outcome list"

text \<open>
  The awaited call \<^verbatim>\<open>download_song_async(song, output_dir, download_id, i)\<close> is a
  parameter of the runner, so that what is proved of the runner holds whatever the call
  does, raising included. The call that the service makes is \<open>acquire\<close>.
\<close>

type_synonym callee = "nat \<Rightarrow> song \<Rightarrow> dl_state \<Rightarrow> exn + ((bool \<times> string) \<times> dl_state)"

definition acquire :: "(nat \<Rightarrow> dl_env) \<Rightarrow> string \<Rightarrow> string \<Rightarrow> callee" where
  "acquire env output_dir download_id i s st =
     download_song_async (env i) s output_dir download_id i st"

text \<open>The entry appended to \<^verbatim>\<open>downloaded_songs\<close>, with its two last keys.\<close>

definition song_entry :: "song \<Rightarrow> string \<Rightarrow> string \<Rightarrow> string \<Rightarrow> exn + outcome" where
  "song_entry s key msg st =
     then_do (getitem s ''title'') (\<lambda>title.
     then_do (getitem s ''artist'') (\<lambda>artist.
       Inr [''title'' \<mapsto> title, ''artist'' \<mapsto> artist,
            ''album'' \<mapsto> (case s ''album'' of None \<Rightarrow> PNone | Some v \<Rightarrow> v),
            key \<mapsto> PStr msg, ''status'' \<mapsto> PStr st]))"

text \<open>
  The status written after a song (lines 1057 to 1064). The source computes the
  percentage as \<^verbatim>\<open>int(((i + 1) / len(songs)) * 100)\<close> in binary floating point; for
  fewer than 50 songs this is the integer quotient below, and a job has 20 songs at most.
\<close>

definition song_progress :: "nat \<Rightarrow> nat \<Rightarrow> nat" where
  "song_progress i n = (100 * (i + 1)) div n"

definition song_status :: "runner \<Rightarrow> nat \<Rightarrow> string" where
  "song_status r n =
     (if completed r + failed r < n then ''downloading''
      else if 0 < failed r then ''error''
      else ''completed'')"

text \<open>The writes of a single-song job before its download starts (lines 992 to 1015).\<close>

definition single_song_intro :: "string \<Rightarrow> nat \<Rightarrow> op list" where
  "single_song_intro download_id n =
     (if n = 1 then
        [Update download_id ''downloading'' (counters 1 0 0 10 []), Suspend,
         Update download_id ''downloading'' (counters 1 0 0 25 [])]
      else [])"

text \<open>
  The exception handler of the loop body (lines 1080 to 1088): the song counts as
  failed and gets an entry with the text of the exception. Building the entry reads the
  title and the artist of the song, so the handler raises itself when one is missing.
\<close>

definition handle_exception :: "song \<Rightarrow> exn \<Rightarrow> runner \<Rightarrow> exn + runner" where
  "handle_exception s e r =
     then_do (song_entry s ''error'' (str_exn e) ''error'') (\<lambda>entry.
       Inr (r\<lparr>failed := failed r + 1, downloaded_songs := downloaded_songs r @ [entry]\<rparr>))"

text \<open>
  One pass of the loop body for song \<open>i\<close> of \<open>n\<close>. The result is the list of
  operations of the pass and either the exception that leaves the runner or the new
  local variables and download state.
\<close>

definition iteration ::
  "callee \<Rightarrow> string \<Rightarrow> nat \<Rightarrow> nat \<Rightarrow> song \<Rightarrow> runner \<times> dl_state
     \<Rightarrow> op list \<times> (exn + runner \<times> dl_state)" where
  "iteration call download_id n i s rs =
     (case rs of (r, st) \<Rightarrow>
        (case call i s st of
           Inl e \<Rightarrow>
             (single_song_intro download_id n @ [Download i],
              then_do (handle_exception s e r) (\<lambda>r1. Inr (r1, st)))
         | Inr ((success, result_msg), st1) \<Rightarrow>
             (let r1 = (if success then r\<lparr>completed := completed r + 1\<rparr>
                        else r\<lparr>failed := failed r + 1\<rparr>);
                  processing =
                    (if success \<and> n = 1
                     then [Update download_id ''downloading'' (counters 1 0 0 75 []), Suspend]
                     else []);
                  entry = (if success then song_entry s ''filepath'' result_msg ''completed''
                           else song_entry s ''error'' result_msg ''failed'')
              in case entry of
                   Inl e \<Rightarrow>
                     (single_song_intro download_id n @ [Download i] @ processing,
                      then_do (handle_exception s e r1) (\<lambda>r2. Inr (r2, st1)))
                 | Inr ent \<Rightarrow>
                     (let r2 = r1\<lparr>downloaded_songs := downloaded_songs r1 @ [ent]\<rparr>
                      in (single_song_intro download_id n @ [Download i] @ processing
                            @ [Update download_id (song_status r2 n)
                                 (counters n (completed r2) (failed r2) (song_progress i n)
                                    (downloaded_songs r2))]
                            @ (if 1 < n then [Suspend] else []),
                          Inr (r2, st1))))))"

text \<open>The loop over the songs (line 989).\<close>

fun song_loop ::
  "callee \<Rightarrow> string \<Rightarrow> nat \<Rightarrow> nat \<Rightarrow> song list \<Rightarrow> runner \<times> dl_state
     \<Rightarrow> op list \<times> (exn + runner \<times> dl_state)" where
  "song_loop call download_id n i [] rs = ([], Inr rs)"
| "song_loop call download_id n i (s # ss) rs =
     (case iteration call download_id n i s rs of
        (ops, Inl e) \<Rightarrow> (ops, Inl e)
      | (ops, Inr rs1) \<Rightarrow>
          (case song_loop call download_id n (Suc i) ss rs1 of
             (ops1, res) \<Rightarrow> (ops @ ops1, res)))"

text \<open>
  The playlist step after the loop (lines 1095 to 1108): an exception in it is caught
  and leaves the job record as it is.
\<close>

definition playlist_step ::
  "bool \<Rightarrow> string \<Rightarrow> string \<Rightarrow> nat \<Rightarrow> runner \<times> dl_state \<Rightarrow> op list \<times> dl_state" where
  "playlist_step writable output_dir download_id n rs =
     (case rs of (r, st) \<Rightarrow>
        if 1 < n \<and> 0 < completed r then
          (let successful_songs =
                 filter (\<lambda>s. s ''status'' = Some (PStr ''completed'')) (downloaded_songs r)
           in if successful_songs \<noteq> [] then
                (case create_m3u_playlist writable successful_songs output_dir
                        (download_id @ ''.m3u'') st of
                   Inl e \<Rightarrow> ([], st)
                 | Inr (path, st1) \<Rightarrow>
                     ([Update download_id ''completed''
                         (no_kwargs\<lparr>playlist_path := Some path,
                            songs := Some (downloaded_songs r)\<rparr>)], st1))
              else ([], st))
        else ([], st))"

text \<open>
  \<^verbatim>\<open>process_song_download(download_id, songs)\<close>: the first write, the loop, the
  playlist step. The result says whether an exception left the coroutine.
\<close>

definition process_song_download ::
  "callee \<Rightarrow> bool \<Rightarrow> string \<Rightarrow> string \<Rightarrow> song list \<Rightarrow> dl_state
     \<Rightarrow> op list \<times> (exn + runner \<times> dl_state)" where
  "process_song_download call writable output_dir download_id song_list st =
     (let n = length song_list;
          start = Update download_id ''downloading'' (counters n 0 0 0 [])
      in case song_loop call download_id n 0 song_list
                (\<lparr>completed = 0, failed = 0, downloaded_songs = []\<rparr>, st) of
           (ops, Inl e) \<Rightarrow> (start # ops, Inl e)
         | (ops, Inr (r, st1)) \<Rightarrow>
             (case playlist_step writable output_dir download_id n (r, st1) of
                (ops1, st2) \<Rightarrow> (start # ops @ ops1, Inr (r, st2))))"

section \<open>The tracklist of an album\<close>

text \<open>
  \<^verbatim>\<open>get_album_tracks\<close> asks the release directory twice: for the release, and for its
  media with their tracks. Of a release the code reads \<^verbatim>\<open>release['id']\<close> (\<open>None\<close>: the
  key is missing). Of a track it reads \<^verbatim>\<open>track.get('recording')\<close> (\<open>None\<close>: false),
  then \<^verbatim>\<open>track['recording']['title']\<close> (\<open>Some None\<close>: the key is missing), and
  \<^verbatim>\<open>track.get('number')\<close>.
\<close>

record release_track =
  rt_recording :: "pyval option option"
  rt_number :: pyval

record tracks_env =
  release_search :: "string \<Rightarrow> string option list response"
  release_detail :: "string \<Rightarrow> release_track list list response"

text \<open>
  \<^verbatim>\<open>str.title\<close> on ASCII letters: a letter after a letter is small, any other letter is
  a capital.
\<close>

definition is_ascii_letter :: "char \<Rightarrow> bool" where
  "is_ascii_letter c =
     (let n = (of_char c :: nat) in (65 \<le> n \<and> n \<le> 90) \<or> (97 \<le> n \<and> n \<le> 122))"

definition ascii_upper :: "char \<Rightarrow> char" where
  "ascii_upper c =
     (let n = (of_char c :: nat) in if 97 \<le> n \<and> n \<le> 122 then char_of (n - 32) else c)"

definition ascii_lower :: "char \<Rightarrow> char" where
  "ascii_lower c =
     (let n = (of_char c :: nat) in if 65 \<le> n \<and> n \<le> 90 then char_of (n + 32) else c)"

fun title_from :: "bool \<Rightarrow> string \<Rightarrow> string" where
  "title_from inside [] = []"
| "title_from inside (c # cs) =
     (if is_ascii_letter c
      then (if inside then ascii_lower c else ascii_upper c) # title_from True cs
      else c # title_from False cs)"

definition title_case :: "string \<Rightarrow> string" where
  "title_case s = title_from False s"

text \<open>The tracks of the release, in the order of the media (lines 519 to 534).\<close>

fun release_tracks :: "string \<Rightarrow> string \<Rightarrow> release_track list \<Rightarrow> exn + song list" where
  "release_tracks artist_clean album_clean [] = Inr []"
| "release_tracks artist_clean album_clean (track # tracks) =
     (case rt_recording track of
        None \<Rightarrow> release_tracks artist_clean album_clean tracks
      | Some None \<Rightarrow> Inl (KeyError ''title'')
      | Some (Some track_title) \<Rightarrow>
          then_do (release_tracks artist_clean album_clean tracks) (\<lambda>rest.
            Inr ([''title'' \<mapsto> track_title, ''artist'' \<mapsto> PStr artist_clean,
                  ''album'' \<mapsto> PStr album_clean,
                  ''query'' \<mapsto> PStr (artist_clean @ '' '' @ [CHR 0x22] @ format_val track_title
                                      @ [CHR 0x22] @ '' song official audio''),
                  ''track_number'' \<mapsto> rt_number track] # rest)))"

text \<open>
  The generated tracklist (lines 549 to 572): three nested loops over the numbers 1 to
  12, the two prefixes and the three suffixes. The inner \<^verbatim>\<open>break\<close> leaves the loop
  over the suffixes, the outer one the loop over the numbers; the loop over the prefixes
  has none.
\<close>

definition generated_track :: "string \<Rightarrow> string \<Rightarrow> nat \<Rightarrow> string \<Rightarrow> string \<Rightarrow> song" where
  "generated_track artist_clean album_clean i prefix suffix =
     [''title'' \<mapsto> PStr (title_case prefix @ '' '' @ str_nat i @ suffix),
      ''artist'' \<mapsto> PStr artist_clean,
      ''album'' \<mapsto> PStr album_clean,
      ''query'' \<mapsto> PStr (artist_clean @ '' '' @ [CHR 0x22] @ album_clean @ [CHR 0x22]
                          @ '' song '' @ str_nat i @ '' -individual track-'')]"

fun suffix_loop ::
  "string \<Rightarrow> string \<Rightarrow> nat \<Rightarrow> string \<Rightarrow> string list \<Rightarrow> song list \<Rightarrow> song list" where
  "suffix_loop artist_clean album_clean i prefix [] tracks = tracks"
| "suffix_loop artist_clean album_clean i prefix (suffix # suffixes) tracks =
     (let tracks1 = tracks @ [generated_track artist_clean album_clean i prefix suffix]
      in if 12 \<le> length tracks1 then tracks1
         else suffix_loop artist_clean album_clean i prefix suffixes tracks1)"

fun prefix_loop :: "string \<Rightarrow> string \<Rightarrow> nat \<Rightarrow> string list \<Rightarrow> song list \<Rightarrow> song list" where
  "prefix_loop artist_clean album_clean i [] tracks = tracks"
| "prefix_loop artist_clean album_clean i (prefix # prefixes) tracks =
     prefix_loop artist_clean album_clean i prefixes
       (suffix_loop artist_clean album_clean i prefix [[], '' (part 1)'', '' (part 2)'']
          tracks)"

fun number_loop :: "string \<Rightarrow> string \<Rightarrow> nat list \<Rightarrow> song list \<Rightarrow> song list" where
  "number_loop artist_clean album_clean [] tracks = tracks"
| "number_loop artist_clean album_clean (i # numbers) tracks =
     (let tracks1 = prefix_loop artist_clean album_clean i [''track'', ''song''] tracks
      in if 12 \<le> length tracks1 then tracks1
         else number_loop artist_clean album_clean numbers tracks1)"

definition generated_tracks :: "string \<Rightarrow> string \<Rightarrow> song list" where
  "generated_tracks artist_clean album_clean =
     take 12 (number_loop artist_clean album_clean [1..<13] [])"

text \<open>
  The body of the \<^verbatim>\<open>try\<close> block: the tracks of the release when there are any,
  the generated tracklist otherwise.
\<close>

definition release_query :: "string \<Rightarrow> string \<Rightarrow> string" where
  "release_query artist_clean album_clean =
     ''artist:'' @ [CHR 0x22] @ artist_clean @ [CHR 0x22] @ '' AND release:''
       @ [CHR 0x22] @ album_clean @ [CHR 0x22]"

definition album_tracks_body :: "tracks_env \<Rightarrow> string \<Rightarrow> string \<Rightarrow> exn + song list" where
  "album_tracks_body env artist album =
     (let artist_clean = strip artist;
          album_clean = strip album;
          query = release_query artist_clean album_clean;
          fallback = Inr (generated_tracks artist_clean album_clean)
      in case release_search env query of
           Transport_error e \<Rightarrow> Inl (Exception e)
         | Response code body \<Rightarrow>
             if code = 200 then
               (case body of
                  None \<Rightarrow> Inl (Exception ''response is not JSON'')
                | Some [] \<Rightarrow> fallback
                | Some (release # _) \<Rightarrow>
                    (case release of
                       None \<Rightarrow> Inl (KeyError ''id'')
                     | Some release_id \<Rightarrow>
                         (case release_detail env
                                 (''http://musicbrainz.org/ws/2/release/'' @ release_id) of
                            Transport_error e \<Rightarrow> Inl (Exception e)
                          | Response code1 body1 \<Rightarrow>
                              if code1 = 200 then
                                (case body1 of
                                   None \<Rightarrow> Inl (Exception ''response is not JSON'')
                                 | Some media \<Rightarrow>
                                     then_do (release_tracks artist_clean album_clean
                                                (concat media))
                                       (\<lambda>tracks. if tracks \<noteq> [] then Inr tracks
                                                  else fallback))
                              else fallback)))
             else fallback)"

text \<open>\<^verbatim>\<open>get_album_tracks(artist, album)\<close>: an exception gives the album as one song.\<close>

definition get_album_tracks :: "tracks_env \<Rightarrow> string \<Rightarrow> string \<Rightarrow> song list" where
  "get_album_tracks env artist album =
     (case album_tracks_body env artist album of
        Inr tracks \<Rightarrow> tracks
      | Inl e \<Rightarrow>
          [[''title'' \<mapsto> PStr album, ''artist'' \<mapsto> PStr artist, ''album'' \<mapsto> PStr album,
            ''query'' \<mapsto> PStr (artist @ '' '' @ album @ '' full album official'')]])"

section \<open>The two download requests\<close>

text \<open>
  Both endpoints write the first record of the job and hand the songs to the job runner
  as a background task, which starts after the response is sent. The download id is a
  fresh UUID in the source and a parameter here.
\<close>

definition download_song_endpoint ::
  "callee \<Rightarrow> bool \<Rightarrow> string \<Rightarrow> string \<Rightarrow> song_request \<Rightarrow> dl_state
     \<Rightarrow> op list \<times> (exn + runner \<times> dl_state)" where
  "download_song_endpoint call writable output_dir download_id req st =
     (case process_song_download call writable output_dir download_id [song_dict req] st of
        (ops, res) \<Rightarrow>
          (Update download_id ''starting''
             (no_kwargs\<lparr>total_songs := Some 1, completed_songs := Some 0\<rparr>)
           # Suspend # ops, res))"

record album_request =
  areq_artist :: string
  areq_album :: string

definition download_album_endpoint ::
  "tracks_env \<Rightarrow> callee \<Rightarrow> bool \<Rightarrow> string \<Rightarrow> string \<Rightarrow> album_request \<Rightarrow> dl_state
     \<Rightarrow> op list \<times> (exn + runner \<times> dl_state)" where
  "download_album_endpoint tenv call writable output_dir download_id album_req st =
     (let searching = Update download_id ''searching_tracks'' no_kwargs;
          tracks = get_album_tracks tenv (strip (areq_artist album_req))
                     (strip (areq_album album_req))
      in if tracks = [] then
           ([searching], Inl (HTTPException 404 ''Could not find tracks''))
         else if 20 < length tracks then
           ([searching], Inl (HTTPException 400 ''Album has too many tracks (max 20)''))
         else
           (case process_song_download call writable output_dir download_id tracks st of
              (ops, res) \<Rightarrow>
                (searching
                 # Update download_id ''starting''
                     (no_kwargs\<lparr>total_songs := Some (length tracks),
                        completed_songs := Some 0, songs := Some []\<rparr>)
                 # Suspend # ops, res)))"

section \<open>The service as a whole\<close>

text \<open>
  While the runner waits, the service answers other requests; the one that changes the
  job table is the cancel request (a status request only reads). A schedule gives, for
  each wait of the runner in turn, the requests answered during it, and what is left of
  the schedule is answered after the runner has ended. The state of the service is the
  job table and the numbers of the songs whose download has started.
\<close>

datatype request = Cancel string

datatype action = Runner op | Client request

record sys =
  db :: store
  started :: "nat list"

fun interleave :: "op list \<Rightarrow> request list list \<Rightarrow> action list" where
  "interleave [] sched = map Client (concat sched)"
| "interleave (Update download_id st kwargs # ops) sched =
     Runner (Update download_id st kwargs) # interleave ops sched"
| "interleave (Download i # ops) [] = Runner (Download i) # interleave ops []"
| "interleave (Download i # ops) (requests # sched) =
     Runner (Download i) # map Client requests @ interleave ops sched"
| "interleave (Suspend # ops) [] = interleave ops []"
| "interleave (Suspend # ops) (requests # sched) =
     map Client requests @ interleave ops sched"

fun act :: "action \<Rightarrow> sys \<Rightarrow> sys" where
  "act (Runner (Update download_id st kwargs)) s =
     s\<lparr>db := update_download_status download_id st kwargs (db s)\<rparr>"
| "act (Runner (Download i)) s = s\<lparr>started := started s @ [i]\<rparr>"
| "act (Runner Suspend) s = s"
| "act (Client (Cancel download_id)) s =
     s\<lparr>db := snd (cancel_download_status download_id (db s))\<rparr>"

text \<open>The states the service passes through, one after each action.\<close>

fun run :: "action list \<Rightarrow> sys \<Rightarrow> sys list" where
  "run [] s = []"
| "run (a # as) s = act a s # run as (act a s)"

section \<open>Notions the properties are stated with\<close>

text \<open>
  What the specification asks of one call of the acquisition tool for the attempt to
  count as a success: the process exits with success, the output file exists, and the
  file is not empty.
\<close>

definition attempt_ok :: "tool_result \<Rightarrow> bool" where
  "attempt_ok r =
     (case r of
        Finished returncode err out file \<Rightarrow>
          returncode = 0 \<and> (case file of None \<Rightarrow> False | Some sz \<Rightarrow> 0 < sz)
      | Timed_out file \<Rightarrow> False
      | Crashed e file \<Rightarrow> False)"

text \<open>
  The release directory has no match for an album: the search answers with another
  status than 200, or with an empty list of releases.
\<close>

definition no_release_found :: "tracks_env \<Rightarrow> string \<Rightarrow> string \<Rightarrow> bool" where
  "no_release_found env artist album =
     (case release_search env (release_query (strip artist) (strip album)) of
        Transport_error e \<Rightarrow> False
      | Response code body \<Rightarrow> code \<noteq> 200 \<or> body = Some [])"

text \<open>
  The keys that the enrichment writes, and what it means that a record \<open>t\<close> has
  everything a record \<open>s\<close> has: every key of \<open>s\<close> is a key of \<open>t\<close>, and a key
  outside the enrichment keys has the value it had.
\<close>

definition enrich_keys :: "string set" where
  "enrich_keys = set [''title'', ''artist'', ''album'', ''cover_url'', ''genre'',
     ''track_number'', ''duration_ms'', ''lyrics'']"

definition widens :: "song \<Rightarrow> song \<Rightarrow> bool" where
  "widens s t \<longleftrightarrow> dom s \<subseteq> dom t \<and> (\<forall>k. k \<notin> enrich_keys \<longrightarrow> t k = s k)"

text \<open>
  No provider has data: each request to the directory fails or finds no recording, and
  neither lyric provider yields a text (a failing lyric provider yields none).
\<close>

definition no_data :: "enrich_env \<Rightarrow> bool" where
  "no_data env \<longleftrightarrow>
     (\<forall>q. case mb_search env q of
             Transport_error e \<Rightarrow> True
           | Response code body \<Rightarrow> code \<noteq> 200 \<or> body = None \<or> body = Some [])
     \<and> (\<forall>a t. lyrics_from_ovh (lyrics_ovh env) a t = None)
     \<and> (\<forall>a t. lyrics_from_lrclib (lrclib env) a t = None)"

text \<open>
  The record that an operation of the runner writes, and the progress values that a
  list of operations writes into the record of one job, in their order.
\<close>

fun written :: "op \<Rightarrow> (string \<times> job) option" where
  "written (Update download_id st kwargs) = Some (download_id, kwargs\<lparr>status := st\<rparr>)"
| "written (Download i) = None"
| "written Suspend = None"

definition ops_progress :: "string \<Rightarrow> op list \<Rightarrow> nat list" where
  "ops_progress download_id ops =
     List.map_filter
       (\<lambda>op. case written op of
                None \<Rightarrow> None
              | Some (d, r) \<Rightarrow> if d = download_id then progress r else None) ops"

text \<open>
  The progress values that the snapshots of one job show, in their order; a snapshot
  that shows none contributes nothing to the list.
\<close>

definition progress_seen :: "string \<Rightarrow> sys list \<Rightarrow> nat list" where
  "progress_seen download_id trace =
     List.map_filter
       (\<lambda>s. case db s download_id of None \<Rightarrow> None | Some r \<Rightarrow> progress r) trace"

text \<open>
  A record whose three counters are present is consistent: completed and failed songs
  together are not more than the total, they are the total when the status is
  \<^verbatim>\<open>completed\<close> or \<^verbatim>\<open>error\<close>, and the song list, when present, has one entry for each of
  them. A record without one of the counters says nothing about them.
\<close>

definition record_ok :: "job \<Rightarrow> bool" where
  "record_ok r =
     (case (total_songs r, completed_songs r, failed_songs r) of
        (Some t, Some c, Some f) \<Rightarrow>
          c + f \<le> t
          \<and> (if status r = ''completed'' \<or> status r = ''error'' then c + f = t else True)
          \<and> (case songs r of None \<Rightarrow> True | Some entries \<Rightarrow> length entries = c + f)
      | _ \<Rightarrow> True)"

definition store_ok :: "store \<Rightarrow> bool" where
  "store_ok d = (\<forall>download_id r. d download_id = Some r \<longrightarrow> record_ok r)"

text \<open>Every write of a list of operations goes to one job and is consistent.\<close>

definition writes_ok :: "string \<Rightarrow> op list \<Rightarrow> bool" where
  "writes_ok download_id ops =
     (\<forall>op \<in> set ops. case written op of
                        None \<Rightarrow> True
                      | Some (d, r) \<Rightarrow> d = download_id \<and> record_ok r)"

text \<open>
  The operations of the runner among a list of actions, and the progress value that the
  record of a job shows in a state of the service.
\<close>

definition runner_ops :: "action list \<Rightarrow> op list" where
  "runner_ops acts =
     List.map_filter (\<lambda>a. case a of Runner op \<Rightarrow> Some op | Client request \<Rightarrow> None) acts"

definition shown_progress :: "string \<Rightarrow> sys \<Rightarrow> nat option" where
  "shown_progress download_id s =
     (case db s download_id of None \<Rightarrow> None | Some r \<Rightarrow> progress r)"

text \<open>
  The run of the transcoder that the tag step makes on a file, if it makes one: there
  is none when asking for the version of the transcoder fails or when cleaning the tag
  values raises.
\<close>

definition transcoder_run :: "ffmpeg_env \<Rightarrow> string \<Rightarrow> song \<Rightarrow> run_result option" where
  "transcoder_run env filepath s =
     (case ff_probe env of
        Probe_ok \<Rightarrow>
          (case clean_tags s of
             Inl e \<Rightarrow> None
           | Inr (artist, title, album) \<Rightarrow>
               Some (ff_run env (ffmpeg_cmd filepath artist title album)))
      | Probe_missing \<Rightarrow> None
      | Probe_error e \<Rightarrow> None)"

text \<open>
  What the specification asks of the progress values that the successive snapshots of a
  job show: once a snapshot shows a value, every later snapshot shows a value that is
  not smaller.
\<close>

fun never_drops :: "nat option list \<Rightarrow> bool" where
  "never_drops [] = True"
| "never_drops (None # shown) = never_drops shown"
| "never_drops (Some p # shown) =
     (list_all (\<lambda>v. case v of None \<Rightarrow> False | Some q \<Rightarrow> p \<le> q) shown \<and> never_drops shown)"

text \<open>What a status request reads of a record.\<close>

definition snapshot ::
  "string \<Rightarrow> sys \<Rightarrow> (string \<times> nat option \<times> nat option \<times> nat option \<times> nat option) option" where
  "snapshot download_id s =
     map_option (\<lambda>r. (status r, progress r, total_songs r, completed_songs r, failed_songs r))
       (db s download_id)"

section \<open>Example environments\<close>

text \<open>A release directory without releases, and one that cannot be reached.\<close>

definition directory_empty :: tracks_env where
  "directory_empty =
     \<lparr>release_search = (\<lambda>q. Response 200 (Some [])),
      release_detail = (\<lambda>u. Response 404 None)\<rparr>"

definition directory_down :: tracks_env where
  "directory_down =
     \<lparr>release_search = (\<lambda>q. Transport_error ''timed out''),
      release_detail = (\<lambda>u. Transport_error ''timed out'')\<rparr>"

text \<open>Metadata services that cannot be reached, and a song.\<close>

definition services_down :: enrich_env where
  "services_down =
     \<lparr>mb_search = (\<lambda>q. Transport_error ''timed out''),
      cover_http = (\<lambda>u. Transport_error ''timed out''),
      lyrics_ovh = (\<lambda>u. Transport_error ''timed out''),
      lrclib = (\<lambda>u. Transport_error ''timed out'')\<rparr>"

definition bad_guy :: song where
  "bad_guy = [''title'' \<mapsto> PStr ''bad guy'', ''artist'' \<mapsto> PStr ''Billie Eilish'',
     ''query'' \<mapsto> PStr ''Billie Eilish bad guy official audio lyrics'']"

text \<open>
  A tag step that works and one whose transcoder run fails; an acquisition tool that
  finds nothing with the first two queries and a good file with the third; a song
  without a query of its own; an empty download state.
\<close>

definition tagger_ok :: ffmpeg_env where
  "tagger_ok = \<lparr>ff_probe = Probe_ok, ff_run = (\<lambda>args. Run_exit 0 []), ff_replace_ok = True\<rparr>"

definition tagger_broken :: ffmpeg_env where
  "tagger_broken =
     \<lparr>ff_probe = Probe_ok, ff_run = (\<lambda>args. Run_exit 1 ''Invalid data found''),
      ff_replace_ok = True\<rparr>"

definition third_query_hits :: dl_env where
  "third_query_hits =
     \<lparr>yt_dlp = (\<lambda>i output_path query.
                  if i = 2 then Finished 0 [] [] (Some 4096)
                  else Finished 1 ''ERROR: no results'' [] None),
      os_remove = (\<lambda>i k. True),
      enrich_services = services_down,
      ffmpeg = tagger_ok\<rparr>"

definition bad_guy_plain :: song where
  "bad_guy_plain = [''title'' \<mapsto> PStr ''bad guy'', ''artist'' \<mapsto> PStr ''Billie Eilish'']"

definition no_files :: dl_state where
  "no_files = \<lparr>files = Map.empty, invoked = []\<rparr>"

text \<open>
  An acquisition tool that delivers a good file while the tag step fails, and one that
  delivers an empty file; the local variables of the runner at its start.
\<close>

definition tag_step_fails :: dl_env where
  "tag_step_fails =
     \<lparr>yt_dlp = (\<lambda>i output_path query. Finished 0 [] [] (Some 4096)),
      os_remove = (\<lambda>i k. True),
      enrich_services = services_down,
      ffmpeg = tagger_broken\<rparr>"

definition empty_download :: dl_env where
  "empty_download =
     \<lparr>yt_dlp = (\<lambda>i output_path query. Finished 0 [] [] (Some 0)),
      os_remove = (\<lambda>i k. True),
      enrich_services = services_down,
      ffmpeg = tagger_ok\<rparr>"

definition fresh_runner :: runner where
  "fresh_runner = \<lparr>completed = 0, failed = 0, downloaded_songs = []\<rparr>"

text \<open>
  An acquisition tool that always delivers a good file and one that never finds
  anything; a job in which only the first song can be acquired; a release directory
  that knows one release with two tracks; the two requests; the service before its first
  request.
\<close>

definition always_found :: dl_env where
  "always_found =
     \<lparr>yt_dlp = (\<lambda>i output_path query. Finished 0 [] [] (Some 4096)),
      os_remove = (\<lambda>i k. True),
      enrich_services = services_down,
      ffmpeg = tagger_ok\<rparr>"

definition never_found :: dl_env where
  "never_found =
     \<lparr>yt_dlp = (\<lambda>i output_path query. Finished 1 ''ERROR: no results'' [] None),
      os_remove = (\<lambda>i k. True),
      enrich_services = services_down,
      ffmpeg = tagger_ok\<rparr>"

definition first_song_only :: "nat \<Rightarrow> dl_env" where
  "first_song_only i = (if i = 0 then always_found else never_found)"

definition directory_two_tracks :: tracks_env where
  "directory_two_tracks =
     \<lparr>release_search = (\<lambda>q. Response 200 (Some [Some ''r1''])),
      release_detail = (\<lambda>u. Response 200
         (Some [[\<lparr>rt_recording = Some (Some (PStr ''Intro'')), rt_number = PStr ''1''\<rparr>,
                 \<lparr>rt_recording = Some (Some (PStr ''Outro'')), rt_number = PStr ''2''\<rparr>]]))\<rparr>"

definition bad_guy_request :: song_request where
  "bad_guy_request =
     \<lparr>req_title = ''bad guy'', req_artist = ''Billie Eilish'', req_album = None\<rparr>"

definition muse_request :: album_request where
  "muse_request = \<lparr>areq_artist = ''Muse'', areq_album = ''Absolution''\<rparr>"

definition idle_service :: sys where
  "idle_service = \<lparr>db = Map.empty, started = []\<rparr>"

text \<open>
  Three runs of the service. In the first, a single-song job is cancelled before its
  runner starts. In the second, an album job of two tracks runs undisturbed, and only
  its first track can be acquired. In the third, an album job of two tracks that can
  both be acquired is cancelled while the first download is under way.
\<close>

definition cancelled_song_run :: "sys list" where
  "cancelled_song_run =
     run (interleave
            (fst (download_song_endpoint (acquire (\<lambda>i. always_found) ''music'' ''job-1'')
                    True ''music'' ''job-1'' bad_guy_request no_files))
            [[Cancel ''job-1'']])
       idle_service"

definition half_album_run :: "sys list" where
  "half_album_run =
     run (interleave
            (fst (download_album_endpoint directory_two_tracks
                    (acquire first_song_only ''music'' ''job-2'')
                    True ''music'' ''job-2'' muse_request no_files))
            [])
       idle_service"

definition cancelled_album_run :: "sys list" where
  "cancelled_album_run =
     run (interleave
            (fst (download_album_endpoint directory_two_tracks
                    (acquire (\<lambda>i. always_found) ''music'' ''job-3'')
                    True ''music'' ''job-3'' muse_request no_files))
            [[], [Cancel ''job-3'']])
       idle_service"

text \<open>
  A single-song job whose tag step fails, run undisturbed; a song whose title is a
  number and which has no query of its own, so that its download raises.
\<close>

definition tag_failure_run :: "sys list" where
  "tag_failure_run =
     run (interleave
            (fst (download_song_endpoint (acquire (\<lambda>i. tag_step_fails) ''music'' ''job-4'')
                    True ''music'' ''job-4'' bad_guy_request no_files))
            [])
       idle_service"

definition numbered_song :: song where
  "numbered_song = [''title'' \<mapsto> PInt 7, ''artist'' \<mapsto> PStr ''Seven'']"

text \<open>
  A machine without the transcoder, and an acquisition tool that delivers a good file
  there; an acquisition tool that delivers an empty file which cannot be removed.
\<close>

definition tagger_missing :: ffmpeg_env where
  "tagger_missing =
     \<lparr>ff_probe = Probe_missing, ff_run = (\<lambda>args. Run_error ''No such file or directory''),
      ff_replace_ok = True\<rparr>"

definition no_tagger :: dl_env where
  "no_tagger =
     \<lparr>yt_dlp = (\<lambda>i output_path query. Finished 0 [] [] (Some 4096)),
      os_remove = (\<lambda>i k. True),
      enrich_services = services_down,
      ffmpeg = tagger_missing\<rparr>"

definition stuck_empty_download :: dl_env where
  "stuck_empty_download =
     \<lparr>yt_dlp = (\<lambda>i output_path query. Finished 0 [] [] (Some 0)),
      os_remove = (\<lambda>i k. False),
      enrich_services = services_down,
      ffmpeg = tagger_ok\<rparr>"

section \<open>Computations that may raise\<close>

lemma then_do_Inr_iff: "then_do m f = Inr y \<longleftrightarrow> (\<exists>x. m = Inr x \<and> f x = Inr y)"
  by (cases m) auto

lemma then_do_Inl_iff:
  "then_do m f = Inl e \<longleftrightarrow> m = Inl e \<or> (\<exists>x. m = Inr x \<and> f x = Inl e)"
  by (cases m) auto

section \<open>The acquisition ladder: properties\<close>

lemma query_attempt_invoked:
  "query_attempt env s p i q le st = (r, le1, st1) \<Longrightarrow> invoked st1 = invoked st @ [q]"
  by (auto simp: query_attempt_def Let_def split: tool_result.splits if_splits)

lemma query_attempt_returns_iff:
  "(fst (query_attempt env s p i q le st) \<noteq> None) = attempt_ok (yt_dlp env i p q)"
  by (auto simp: query_attempt_def attempt_ok_def Let_def split: tool_result.splits)

lemma try_queries_single:
  "\<exists>r st1. try_queries env s p n i [q] le st = (r, st1) \<and> invoked st1 = invoked st @ [q]"
  by (cases "query_attempt env s p i q le st")
     (auto dest: query_attempt_invoked split: option.splits)

lemma song_dict_queries:
  "build_search_queries (song_dict req) =
     Inr [strip (req_artist req) @ '' '' @ strip (req_title req) @ '' official audio lyrics'']"
  by (simp add: build_search_queries_def song_dict_def get_truthy_def getitem_def)

lemma try_queries_trace:
  assumes "try_queries env s p n i qs le st = (r, st1)" and "qs \<noteq> []"
  shows "\<exists>m. 0 < m \<and> m \<le> length qs
            \<and> invoked st1 = invoked st @ take m qs
            \<and> (\<forall>j<m - 1. \<not> attempt_ok (yt_dlp env (i + j) p (qs ! j)))
            \<and> (m < length qs \<longrightarrow> attempt_ok (yt_dlp env (i + (m - 1)) p (qs ! (m - 1))))
            \<and> (fst r \<longrightarrow> attempt_ok (yt_dlp env (i + (m - 1)) p (qs ! (m - 1))))"
  using assms
proof (induction qs arbitrary: i le st)
  case Nil
  then show ?case by simp
next
  case (Cons q qs)
  obtain res le1 st2 where qa: "query_attempt env s p i q le st = (res, le1, st2)"
    by (cases "query_attempt env s p i q le st") auto
  have inv2: "invoked st2 = invoked st @ [q]"
    by (rule query_attempt_invoked [OF qa])
  have ok_iff: "(res \<noteq> None) = attempt_ok (yt_dlp env i p q)"
    using query_attempt_returns_iff [of env s p i q le st] qa by simp
  show ?case
  proof (cases res)
    case (Some result)
    with Cons.prems(1) qa have "st1 = st2" by simp
    with inv2 ok_iff Some show ?thesis
      by (intro exI [of _ 1]) simp
  next
    case None
    with Cons.prems(1) qa
    have rest: "try_queries env s p n (Suc i) qs le1 st2 = (r, st1)" by simp
    from None ok_iff have nok: "\<not> attempt_ok (yt_dlp env i p q)" by simp
    show ?thesis
    proof (cases "qs = []")
      case True
      with rest have "st1 = st2" and "\<not> fst r" by auto
      with inv2 True show ?thesis
        by (intro exI [of _ 1]) simp
    next
      case False
      from Cons.IH [OF rest False] obtain m where
        m: "0 < m" "m \<le> length qs"
        and inv: "invoked st1 = invoked st2 @ take m qs"
        and before: "\<forall>j<m - 1. \<not> attempt_ok (yt_dlp env (Suc i + j) p (qs ! j))"
        and stop: "m < length qs \<longrightarrow>
                     attempt_ok (yt_dlp env (Suc i + (m - 1)) p (qs ! (m - 1)))"
        and succ: "fst r \<longrightarrow> attempt_ok (yt_dlp env (Suc i + (m - 1)) p (qs ! (m - 1)))"
        by blast
      have b: "\<forall>j<Suc m - 1. \<not> attempt_ok (yt_dlp env (i + j) p ((q # qs) ! j))"
      proof (intro allI impI)
        fix j assume j: "j < Suc m - 1"
        show "\<not> attempt_ok (yt_dlp env (i + j) p ((q # qs) ! j))"
        proof (cases j)
          case 0
          with nok show ?thesis by simp
        next
          case (Suc j')
          with j have "j' < m - 1" by simp
          with before have "\<not> attempt_ok (yt_dlp env (Suc i + j') p (qs ! j'))" by blast
          with Suc show ?thesis by simp
        qed
      qed
      from m have idx: "(q # qs) ! (Suc m - 1) = qs ! (m - 1)" "i + (Suc m - 1) = Suc i + (m - 1)"
        by (cases m; simp)+
      show ?thesis
        using m inv inv2 b stop succ idx
        by (intro exI [of _ "Suc m"]) simp
    qed
  qed
qed

lemma build_search_queries_override:
  assumes "get_truthy s ''query''"
  shows "build_search_queries s = Inr [format_val (the (s ''query''))]"
  using assms
  by (auto simp: build_search_queries_def get_truthy_def getitem_def split: option.splits)

lemma build_search_queries_ladder:
  assumes "\<not> get_truthy s ''query''"
    and "s ''artist'' = Some (PStr a)" and "s ''title'' = Some (PStr t)"
  shows "build_search_queries s =
           Inr [strip a @ '' '' @ strip t @ '' official'',
                strip a @ '' '' @ strip t,
                strip t @ '' '' @ strip a,
                strip a @ '' '' @ strip t @ '' audio'',
                strip a @ '' '' @ strip t @ '' official audio lyrics'']"
  using assms by (simp add: build_search_queries_def getitem_def Let_def)

lemma build_search_queries_nonempty:
  "build_search_queries s = Inr qs \<Longrightarrow> qs \<noteq> []"
  by (auto simp: build_search_queries_def then_do_Inr_iff Let_def split: if_splits)

lemma third_query_hits_run:
  "download_song_async third_query_hits bad_guy_plain ''music'' ''job-1'' 0 no_files =
     Inr ((True, ''music/Billie Eilish - bad guy.mp3''),
          \<lparr>files = [''music/Billie Eilish - bad guy.mp3'' \<mapsto> 4096],
           invoked = [''Billie Eilish bad guy official'', ''Billie Eilish bad guy'',
                      ''bad guy Billie Eilish'']\<rparr>)"
  apply (simp add: download_song_async_def bad_guy_plain_def getitem_def build_search_queries_def
       get_truthy_def Let_def strip_def is_space_def song_path_def path_join_def)
  apply (simp add: query_attempt_def third_query_hits_def no_files_def Let_def clean_up_def
       remove_quietly_def)
  apply (simp add: enrich_metadata_def enrich_body_def services_down_def getitem_def
        fix_metadata_def tagger_ok_def clean_tags_def)
  done

text \<open>
  Claim C5. For a song whose artist and title are strings, the download returns, and
  the queries it hands to the acquisition tool are a prefix of the list of search
  queries, in the order of the list: with a query of its own (present and not empty)
  the list is this one query; without one, the list is the five queries built from the
  trimmed artist \<open>a\<close> and the trimmed title \<open>t\<close>. The ladder stops at the first
  attempt that counts as a success: no attempt before the last one made was a success,
  the ladder stops before the end of the list only on a success, and the download
  reports success only if the last attempt made was one.
\<close>

theorem acquisition_ladder_order:
  assumes "s ''artist'' = Some (PStr a)" and "s ''title'' = Some (PStr t)"
  shows "\<exists>r st1 queries m.
      download_song_async env s output_dir download_id k st = Inr (r, st1)
    \<and> build_search_queries s = Inr queries
    \<and> (get_truthy s ''query'' \<longrightarrow> queries = [format_val (the (s ''query''))])
    \<and> (\<not> get_truthy s ''query'' \<longrightarrow>
         queries = [strip a @ '' '' @ strip t @ '' official'',
                    strip a @ '' '' @ strip t,
                    strip t @ '' '' @ strip a,
                    strip a @ '' '' @ strip t @ '' audio'',
                    strip a @ '' '' @ strip t @ '' official audio lyrics''])
    \<and> 0 < m \<and> m \<le> length queries
    \<and> invoked st1 = invoked st @ take m queries
    \<and> (\<forall>j<m - 1. \<not> attempt_ok
           (yt_dlp env j (song_path output_dir (PStr a) (PStr t)) (queries ! j)))
    \<and> (m < length queries \<longrightarrow> attempt_ok
           (yt_dlp env (m - 1) (song_path output_dir (PStr a) (PStr t)) (queries ! (m - 1))))
    \<and> (fst r \<longrightarrow> attempt_ok
           (yt_dlp env (m - 1) (song_path output_dir (PStr a) (PStr t)) (queries ! (m - 1))))"
proof -
  define p where "p = song_path output_dir (PStr a) (PStr t)"
  obtain queries where q: "build_search_queries s = Inr queries"
    using build_search_queries_override [of s] build_search_queries_ladder [OF _ assms]
    by (cases "get_truthy s ''query''") auto
  have ne: "queries \<noteq> []" by (rule build_search_queries_nonempty [OF q])
  obtain r st1 where
    tq: "try_queries env s p (length queries) 0 queries ''No search queries succeeded'' st
           = (r, st1)"
    by (cases "try_queries env s p (length queries) 0 queries
                 ''No search queries succeeded'' st") auto
  have d: "download_song_async env s output_dir download_id k st = Inr (r, st1)"
    using assms q tq by (simp add: download_song_async_def getitem_def p_def)
  from try_queries_trace [OF tq ne] obtain m where
    m: "0 < m" "m \<le> length queries" "invoked st1 = invoked st @ take m queries"
       "\<forall>j<m - 1. \<not> attempt_ok (yt_dlp env j p (queries ! j))"
       "m < length queries \<longrightarrow> attempt_ok (yt_dlp env (m - 1) p (queries ! (m - 1)))"
       "fst r \<longrightarrow> attempt_ok (yt_dlp env (m - 1) p (queries ! (m - 1)))"
    by auto
  have o: "get_truthy s ''query'' \<longrightarrow> queries = [format_val (the (s ''query''))]"
    using q build_search_queries_override [of s] by auto
  have l: "\<not> get_truthy s ''query'' \<longrightarrow>
         queries = [strip a @ '' '' @ strip t @ '' official'',
                    strip a @ '' '' @ strip t,
                    strip t @ '' '' @ strip a,
                    strip a @ '' '' @ strip t @ '' audio'',
                    strip a @ '' '' @ strip t @ '' official audio lyrics'']"
    using q build_search_queries_ladder [OF _ assms] by auto
  from d q o l m show ?thesis unfolding p_def by blast
qed

theorem acquisition_ladder_order_witness:
  "bad_guy_plain ''artist'' = Some (PStr ''Billie Eilish'')
   \<and> bad_guy_plain ''title'' = Some (PStr ''bad guy'')
   \<and> (\<exists>r st1. download_song_async third_query_hits bad_guy_plain ''music'' ''job-1'' 0 no_files
                  = Inr (r, st1)
         \<and> fst r
         \<and> invoked st1 = [''Billie Eilish bad guy official'', ''Billie Eilish bad guy'',
                          ''bad guy Billie Eilish''])"
proof -
  have h1: "bad_guy_plain ''artist'' = Some (PStr ''Billie Eilish'')"
    and h2: "bad_guy_plain ''title'' = Some (PStr ''bad guy'')"
    by (simp_all add: bad_guy_plain_def)
  from acquisition_ladder_order [OF h1 h2, of third_query_hits "''music''" "''job-1''" 0 no_files]
  obtain r st1 where
    "download_song_async third_query_hits bad_guy_plain ''music'' ''job-1'' 0 no_files
       = Inr (r, st1)"
    by blast
  with third_query_hits_run h1 h2 show ?thesis by simp
qed

lemma iteration_not_acquired:
  assumes "call i s st = Inr ((False, msg), st1)"
    and "s ''title'' = Some t" and "s ''artist'' = Some a"
  shows "snd (iteration call download_id n i s (r, st)) =
           Inr (r\<lparr>failed := failed r + 1,
                  downloaded_songs := downloaded_songs r @
                    [[''title'' \<mapsto> t, ''artist'' \<mapsto> a,
                      ''album'' \<mapsto> (case s ''album'' of None \<Rightarrow> PNone | Some v \<Rightarrow> v),
                      ''error'' \<mapsto> PStr msg, ''status'' \<mapsto> PStr ''failed'']]\<rparr>, st1)"
  using assms by (simp add: iteration_def song_entry_def getitem_def Let_def)

lemma tag_step_fails_run:
  "download_song_async tag_step_fails bad_guy ''music'' ''job-1'' 0 no_files =
     Inr ((False, ''Metadata fix failed''),
          \<lparr>files = [''music/Billie Eilish - bad guy.mp3'' \<mapsto> 4096],
           invoked = [''Billie Eilish bad guy official audio lyrics'']\<rparr>)"
  apply (simp add: download_song_async_def bad_guy_def getitem_def build_search_queries_def
       get_truthy_def Let_def song_path_def path_join_def)
  apply (simp add: query_attempt_def tag_step_fails_def no_files_def Let_def)
  apply (simp add: enrich_metadata_def enrich_body_def services_down_def getitem_def
        fix_metadata_def tagger_broken_def clean_tags_def)
  done

lemma fix_metadata_by_run:
  assumes "fs filepath \<noteq> None"
  shows "fix_metadata env fs filepath s =
           (case transcoder_run env filepath s of
              None \<Rightarrow> True
            | Some (Run_exit returncode err) \<Rightarrow> returncode = 0 \<and> ff_replace_ok env
            | Some Run_timeout \<Rightarrow> True
            | Some (Run_error e) \<Rightarrow> True)"
  using assms
  by (auto simp: fix_metadata_def transcoder_run_def
        split: probe_result.splits sum.splits prod.splits run_result.splits)

lemma query_attempt_good_file:
  assumes "yt_dlp env i p q = Finished 0 err out (Some sz)" and "0 < sz"
  shows "fst (query_attempt env s p i q le st) =
           Some (case transcoder_run (ffmpeg env) p (enrich_metadata (enrich_services env) s p) of
                   None \<Rightarrow> (True, p)
                 | Some (Run_exit returncode e) \<Rightarrow>
                     if returncode = 0 \<and> ff_replace_ok (ffmpeg env) then (True, p)
                     else (False, ''Metadata fix failed'')
                 | Some Run_timeout \<Rightarrow> (True, p)
                 | Some (Run_error e) \<Rightarrow> (True, p))"
proof -
  have "((files st)(p \<mapsto> sz)) p \<noteq> None" by simp
  note fm = fix_metadata_by_run
              [where fs = "(files st)(p \<mapsto> sz)" and filepath = p and env = "ffmpeg env"
                 and s = "enrich_metadata (enrich_services env) s p", OF this]
  from assms show ?thesis
    by (simp add: query_attempt_def Let_def fm split: option.splits run_result.splits)
qed

lemma query_attempt_empty_file:
  assumes "yt_dlp env i p q = Finished 0 err out (Some 0)"
  shows "fst (query_attempt env s p i q le st) = None"
    and "files (snd (snd (query_attempt env s p i q le st))) p
           = (if os_remove env i 0 \<or> os_remove env i 1 then None else Some 0)"
  using assms
  by (simp_all add: query_attempt_def Let_def clean_up_def remove_quietly_def)

lemma no_tagger_run:
  "download_song_async no_tagger bad_guy ''music'' ''job-6'' 0 no_files =
     Inr ((True, ''music/Billie Eilish - bad guy.mp3''),
          \<lparr>files = [''music/Billie Eilish - bad guy.mp3'' \<mapsto> 4096],
           invoked = [''Billie Eilish bad guy official audio lyrics'']\<rparr>)"
  apply (simp add: download_song_async_def bad_guy_def getitem_def build_search_queries_def
       get_truthy_def Let_def song_path_def path_join_def)
  apply (simp add: query_attempt_def no_tagger_def no_files_def Let_def)
  apply (simp add: enrich_metadata_def enrich_body_def services_down_def getitem_def
        fix_metadata_def tagger_missing_def)
  done

text \<open>
  Claim C9, amended. An acquisition attempt counts as a success (the loop over the
  queries is left with a result) exactly when the process exits with code 0, the output
  file exists and its size is greater than 0. An output file of size 0 is no success;
  its removal is attempted twice, and the file is gone after the attempt unless both
  removals fail, which is not reported. After an attempt with a good file the tag step
  decides: when the run of the transcoder ends with another return code than 0, or its
  output cannot be moved over the file, the result is failure with the text
  \<^verbatim>\<open>Metadata fix failed\<close>; when the run ends with code 0 and its output is moved over
  the file, the result is success with the path; and when the tag step makes no run at
  all (no transcoder, or the tag values cannot be cleaned), or the run times out or
  raises, the result is success with the path as well, with the file as the tool left
  it. When the download of a song returns failure with \<^verbatim>\<open>Metadata fix failed\<close>, the job
  runner counts the song as failed and appends an entry with status \<^verbatim>\<open>failed\<close> and this
  error text.
\<close>

theorem attempt_success_and_tag_step:
  "(fst (query_attempt env s p i q le st) \<noteq> None) = attempt_ok (yt_dlp env i p q)
   \<and> (yt_dlp env i p q = Finished 0 err out (Some 0) \<longrightarrow>
        fst (query_attempt env s p i q le st) = None
        \<and> files (snd (snd (query_attempt env s p i q le st))) p
            = (if os_remove env i 0 \<or> os_remove env i 1 then None else Some 0))
   \<and> (yt_dlp env i p q = Finished 0 err out (Some sz) \<and> 0 < sz
        \<and> transcoder_run (ffmpeg env) p (enrich_metadata (enrich_services env) s p)
            = Some (Run_exit returncode e)
        \<and> (returncode \<noteq> 0 \<or> \<not> ff_replace_ok (ffmpeg env)) \<longrightarrow>
        fst (query_attempt env s p i q le st) = Some (False, ''Metadata fix failed''))
   \<and> (yt_dlp env i p q = Finished 0 err out (Some sz) \<and> 0 < sz
        \<and> transcoder_run (ffmpeg env) p (enrich_metadata (enrich_services env) s p)
            = Some (Run_exit 0 e)
        \<and> ff_replace_ok (ffmpeg env) \<longrightarrow>
        fst (query_attempt env s p i q le st) = Some (True, p))
   \<and> (yt_dlp env i p q = Finished 0 err out (Some sz) \<and> 0 < sz
        \<and> (transcoder_run (ffmpeg env) p (enrich_metadata (enrich_services env) s p) = None
            \<or> transcoder_run (ffmpeg env) p (enrich_metadata (enrich_services env) s p)
                = Some Run_timeout
            \<or> transcoder_run (ffmpeg env) p (enrich_metadata (enrich_services env) s p)
                = Some (Run_error e)) \<longrightarrow>
        fst (query_attempt env s p i q le st) = Some (True, p))
   \<and> (s ''title'' = Some t \<and> s ''artist'' = Some a
        \<and> call i s st = Inr ((False, ''Metadata fix failed''), st1) \<longrightarrow>
        snd (iteration call download_id n i s (r, st)) =
           Inr (r\<lparr>failed := failed r + 1,
                  downloaded_songs := downloaded_songs r @
                    [[''title'' \<mapsto> t, ''artist'' \<mapsto> a,
                      ''album'' \<mapsto> (case s ''album'' of None \<Rightarrow> PNone | Some v \<Rightarrow> v),
                      ''error'' \<mapsto> PStr ''Metadata fix failed'',
                      ''status'' \<mapsto> PStr ''failed'']]\<rparr>, st1))"
proof (intro conjI impI)
  show "(fst (query_attempt env s p i q le st) \<noteq> None) = attempt_ok (yt_dlp env i p q)"
    by (rule query_attempt_returns_iff)
next
  assume z: "yt_dlp env i p q = Finished 0 err out (Some 0)"
  from z show "fst (query_attempt env s p i q le st) = None"
    by (rule query_attempt_empty_file(1))
  from z show "files (snd (snd (query_attempt env s p i q le st))) p
            = (if os_remove env i 0 \<or> os_remove env i 1 then None else Some 0)"
    by (rule query_attempt_empty_file(2))
next
  assume h: "yt_dlp env i p q = Finished 0 err out (Some sz) \<and> 0 < sz
        \<and> transcoder_run (ffmpeg env) p (enrich_metadata (enrich_services env) s p)
            = Some (Run_exit returncode e)
        \<and> (returncode \<noteq> 0 \<or> \<not> ff_replace_ok (ffmpeg env))"
  then have g: "yt_dlp env i p q = Finished 0 err out (Some sz)" "0 < sz" by simp_all
  from h query_attempt_good_file [OF g, of s le st]
  show "fst (query_attempt env s p i q le st) = Some (False, ''Metadata fix failed'')"
    by auto
next
  assume h: "yt_dlp env i p q = Finished 0 err out (Some sz) \<and> 0 < sz
        \<and> transcoder_run (ffmpeg env) p (enrich_metadata (enrich_services env) s p)
            = Some (Run_exit 0 e)
        \<and> ff_replace_ok (ffmpeg env)"
  then have g: "yt_dlp env i p q = Finished 0 err out (Some sz)" "0 < sz" by simp_all
  from h query_attempt_good_file [OF g, of s le st]
  show "fst (query_attempt env s p i q le st) = Some (True, p)"
    by simp
next
  assume h: "yt_dlp env i p q = Finished 0 err out (Some sz) \<and> 0 < sz
        \<and> (transcoder_run (ffmpeg env) p (enrich_metadata (enrich_services env) s p) = None
            \<or> transcoder_run (ffmpeg env) p (enrich_metadata (enrich_services env) s p)
                = Some Run_timeout
            \<or> transcoder_run (ffmpeg env) p (enrich_metadata (enrich_services env) s p)
                = Some (Run_error e))"
  then have g: "yt_dlp env i p q = Finished 0 err out (Some sz)" "0 < sz" by simp_all
  from h query_attempt_good_file [OF g, of s le st]
  show "fst (query_attempt env s p i q le st) = Some (True, p)"
    by auto
next
  assume "s ''title'' = Some t \<and> s ''artist'' = Some a
        \<and> call i s st = Inr ((False, ''Metadata fix failed''), st1)"
  then show "snd (iteration call download_id n i s (r, st)) =
           Inr (r\<lparr>failed := failed r + 1,
                  downloaded_songs := downloaded_songs r @
                    [[''title'' \<mapsto> t, ''artist'' \<mapsto> a,
                      ''album'' \<mapsto> (case s ''album'' of None \<Rightarrow> PNone | Some v \<Rightarrow> v),
                      ''error'' \<mapsto> PStr ''Metadata fix failed'',
                      ''status'' \<mapsto> PStr ''failed'']]\<rparr>, st1)"
    using iteration_not_acquired by blast
qed

theorem attempt_success_and_tag_step_witness:
  "fst (query_attempt empty_download bad_guy ''a.mp3'' 0 ''q'' ''none'' no_files) = None
   \<and> files (snd (snd (query_attempt empty_download bad_guy ''a.mp3'' 0 ''q'' ''none'' no_files)))
        ''a.mp3'' = None
   \<and> transcoder_run (ffmpeg tag_step_fails) ''a.mp3''
        (enrich_metadata (enrich_services tag_step_fails) bad_guy ''a.mp3'')
       = Some (Run_exit 1 ''Invalid data found'')
   \<and> fst (query_attempt tag_step_fails bad_guy ''a.mp3'' 0 ''q'' ''none'' no_files)
       = Some (False, ''Metadata fix failed'')
   \<and> transcoder_run (ffmpeg always_found) ''a.mp3''
        (enrich_metadata (enrich_services always_found) bad_guy ''a.mp3'')
       = Some (Run_exit 0 [])
   \<and> fst (query_attempt always_found bad_guy ''a.mp3'' 0 ''q'' ''none'' no_files)
       = Some (True, ''a.mp3'')
   \<and> transcoder_run (ffmpeg no_tagger) ''a.mp3''
        (enrich_metadata (enrich_services no_tagger) bad_guy ''a.mp3'') = None
   \<and> fst (query_attempt no_tagger bad_guy ''a.mp3'' 0 ''q'' ''none'' no_files)
       = Some (True, ''a.mp3'')
   \<and> acquire (\<lambda>i. tag_step_fails) ''music'' ''job-1'' 0 bad_guy no_files
       = Inr ((False, ''Metadata fix failed''),
              \<lparr>files = [''music/Billie Eilish - bad guy.mp3'' \<mapsto> 4096],
               invoked = [''Billie Eilish bad guy official audio lyrics'']\<rparr>)
   \<and> snd (iteration (acquire (\<lambda>i. tag_step_fails) ''music'' ''job-1'') ''job-1'' 1 0 bad_guy
            (fresh_runner, no_files))
       = Inr (\<lparr>completed = 0, failed = 1,
               downloaded_songs =
                 [[''title'' \<mapsto> PStr ''bad guy'', ''artist'' \<mapsto> PStr ''Billie Eilish'',
                   ''album'' \<mapsto> PNone, ''error'' \<mapsto> PStr ''Metadata fix failed'',
                   ''status'' \<mapsto> PStr ''failed'']]\<rparr>,
              \<lparr>files = [''music/Billie Eilish - bad guy.mp3'' \<mapsto> 4096],
               invoked = [''Billie Eilish bad guy official audio lyrics'']\<rparr>)"
proof -
  have y1: "yt_dlp empty_download 0 ''a.mp3'' ''q'' = Finished 0 [] [] (Some 0)"
    and r1: "os_remove empty_download 0 0"
    by (simp_all add: empty_download_def)
  have y2: "yt_dlp tag_step_fails 0 ''a.mp3'' ''q'' = Finished 0 [] [] (Some 4096)"
    by (simp add: tag_step_fails_def)
  have y3: "yt_dlp always_found 0 ''a.mp3'' ''q'' = Finished 0 [] [] (Some 4096)"
    and m3: "ff_replace_ok (ffmpeg always_found)"
    by (simp_all add: always_found_def tagger_ok_def)
  have y4: "yt_dlp no_tagger 0 ''a.mp3'' ''q'' = Finished 0 [] [] (Some 4096)"
    by (simp add: no_tagger_def)
  have e2: "transcoder_run (ffmpeg tag_step_fails) ''a.mp3''
        (enrich_metadata (enrich_services tag_step_fails) bad_guy ''a.mp3'')
       = Some (Run_exit 1 ''Invalid data found'')"
    by (simp add: enrich_metadata_def enrich_body_def services_down_def getitem_def
        transcoder_run_def tagger_broken_def clean_tags_def tag_step_fails_def bad_guy_def)
  have e3: "transcoder_run (ffmpeg always_found) ''a.mp3''
        (enrich_metadata (enrich_services always_found) bad_guy ''a.mp3'')
       = Some (Run_exit 0 [])"
    by (simp add: enrich_metadata_def enrich_body_def services_down_def getitem_def
        transcoder_run_def tagger_ok_def clean_tags_def always_found_def bad_guy_def)
  have e4: "transcoder_run (ffmpeg no_tagger) ''a.mp3''
        (enrich_metadata (enrich_services no_tagger) bad_guy ''a.mp3'') = None"
    by (simp add: transcoder_run_def tagger_missing_def no_tagger_def)
  have h3: "bad_guy ''title'' = Some (PStr ''bad guy'')"
    "bad_guy ''artist'' = Some (PStr ''Billie Eilish'')"
    by (simp_all add: bad_guy_def)
  have h4: "acquire (\<lambda>i. tag_step_fails) ''music'' ''job-1'' 0 bad_guy no_files
       = Inr ((False, ''Metadata fix failed''),
              \<lparr>files = [''music/Billie Eilish - bad guy.mp3'' \<mapsto> 4096],
               invoked = [''Billie Eilish bad guy official audio lyrics'']\<rparr>)"
    by (simp add: acquire_def tag_step_fails_run)
  note t1 = attempt_success_and_tag_step
     [where env = empty_download and s = bad_guy and p = "''a.mp3''" and i = 0 and q = "''q''"
        and le = "''none''" and st = no_files and err = "[]" and out = "[]"]
  note t2 = attempt_success_and_tag_step
     [where env = tag_step_fails and s = bad_guy and p = "''a.mp3''" and i = 0 and q = "''q''"
        and le = "''none''" and st = no_files and err = "[]" and out = "[]" and sz = 4096
        and returncode = 1 and e = "''Invalid data found''"]
  note t3 = attempt_success_and_tag_step
     [where env = always_found and s = bad_guy and p = "''a.mp3''" and i = 0 and q = "''q''"
        and le = "''none''" and st = no_files and err = "[]" and out = "[]" and sz = 4096
        and e = "[]"]
  note t4 = attempt_success_and_tag_step
     [where env = no_tagger and s = bad_guy and p = "''a.mp3''" and i = 0 and q = "''q''"
        and le = "''none''" and st = no_files and err = "[]" and out = "[]" and sz = 4096]
  note t5 = attempt_success_and_tag_step
     [where s = bad_guy and st = no_files and t = "PStr ''bad guy''"
        and a = "PStr ''Billie Eilish''" and i = 0 and n = 1 and r = fresh_runner
        and call = "acquire (\<lambda>i. tag_step_fails) ''music'' ''job-1''"
        and download_id = "''job-1''"]
  from t1 y1 r1
  have c1: "fst (query_attempt empty_download bad_guy ''a.mp3'' 0 ''q'' ''none'' no_files) = None"
    and c1': "files (snd (snd (query_attempt empty_download bad_guy ''a.mp3'' 0 ''q'' ''none''
               no_files))) ''a.mp3'' = None"
    by simp_all
  from t2 y2 e2
  have c2: "fst (query_attempt tag_step_fails bad_guy ''a.mp3'' 0 ''q'' ''none'' no_files)
       = Some (False, ''Metadata fix failed'')"
    by simp
  from t3 y3 e3 m3
  have c3: "fst (query_attempt always_found bad_guy ''a.mp3'' 0 ''q'' ''none'' no_files)
       = Some (True, ''a.mp3'')"
    by simp
  from t4 y4 e4
  have c4: "fst (query_attempt no_tagger bad_guy ''a.mp3'' 0 ''q'' ''none'' no_files)
       = Some (True, ''a.mp3'')"
    by simp
  from t5 h3 h4
  have c5: "snd (iteration (acquire (\<lambda>i. tag_step_fails) ''music'' ''job-1'') ''job-1'' 1 0 bad_guy
            (fresh_runner, no_files))
       = Inr (fresh_runner\<lparr>failed := failed fresh_runner + 1,
                  downloaded_songs := downloaded_songs fresh_runner @
                    [[''title'' \<mapsto> PStr ''bad guy'', ''artist'' \<mapsto> PStr ''Billie Eilish'',
                      ''album'' \<mapsto> (case bad_guy ''album'' of None \<Rightarrow> PNone | Some v \<Rightarrow> v),
                      ''error'' \<mapsto> PStr ''Metadata fix failed'',
                      ''status'' \<mapsto> PStr ''failed'']]\<rparr>,
              \<lparr>files = [''music/Billie Eilish - bad guy.mp3'' \<mapsto> 4096],
               invoked = [''Billie Eilish bad guy official audio lyrics'']\<rparr>)"
    by blast
  have alb: "bad_guy ''album'' = None" by (simp add: bad_guy_def)
  from c1 c1' e2 c2 e3 c3 e4 c4 h4 c5 alb show ?thesis
    by (simp add: fresh_runner_def)
qed

lemma iteration_acquired:
  assumes "call i s st = Inr ((True, path), st1)"
    and "s ''title'' = Some t" and "s ''artist'' = Some a"
  shows "snd (iteration call download_id n i s (r, st)) =
           Inr (r\<lparr>completed := completed r + 1,
                  downloaded_songs := downloaded_songs r @
                    [[''title'' \<mapsto> t, ''artist'' \<mapsto> a,
                      ''album'' \<mapsto> (case s ''album'' of None \<Rightarrow> PNone | Some v \<Rightarrow> v),
                      ''filepath'' \<mapsto> PStr path, ''status'' \<mapsto> PStr ''completed'']]\<rparr>, st1)"
  using assms by (simp add: iteration_def song_entry_def getitem_def Let_def)

text \<open>
  Claim C9 as stated fails. On a machine without the transcoder the tag step writes no
  tags (it makes no run at all), and the download of a song whose file the tool
  delivered is reported as a success with the path; the job runner appends an entry
  with status \<^verbatim>\<open>completed\<close>. And an empty output file whose removal fails stays where
  it is.
\<close>

theorem skipped_tag_step_counts_as_success:
  "ff_probe (ffmpeg no_tagger) = Probe_missing
   \<and> transcoder_run (ffmpeg no_tagger) ''music/Billie Eilish - bad guy.mp3''
        (enrich_metadata (enrich_services no_tagger) bad_guy
           ''music/Billie Eilish - bad guy.mp3'') = None
   \<and> acquire (\<lambda>i. no_tagger) ''music'' ''job-6'' 0 bad_guy no_files
       = Inr ((True, ''music/Billie Eilish - bad guy.mp3''),
              \<lparr>files = [''music/Billie Eilish - bad guy.mp3'' \<mapsto> 4096],
               invoked = [''Billie Eilish bad guy official audio lyrics'']\<rparr>)
   \<and> snd (iteration (acquire (\<lambda>i. no_tagger) ''music'' ''job-6'') ''job-6'' 1 0 bad_guy
            (fresh_runner, no_files))
       = Inr (\<lparr>completed = 1, failed = 0,
               downloaded_songs =
                 [[''title'' \<mapsto> PStr ''bad guy'', ''artist'' \<mapsto> PStr ''Billie Eilish'',
                   ''album'' \<mapsto> PNone,
                   ''filepath'' \<mapsto> PStr ''music/Billie Eilish - bad guy.mp3'',
                   ''status'' \<mapsto> PStr ''completed'']]\<rparr>,
              \<lparr>files = [''music/Billie Eilish - bad guy.mp3'' \<mapsto> 4096],
               invoked = [''Billie Eilish bad guy official audio lyrics'']\<rparr>)
   \<and> yt_dlp stuck_empty_download 0 ''a.mp3'' ''q'' = Finished 0 [] [] (Some 0)
   \<and> files (snd (snd (query_attempt stuck_empty_download bad_guy ''a.mp3'' 0 ''q'' ''none''
                         no_files))) ''a.mp3'' = Some 0"
proof -
  have p: "ff_probe (ffmpeg no_tagger) = Probe_missing"
    by (simp add: no_tagger_def tagger_missing_def)
  then have tr: "transcoder_run (ffmpeg no_tagger) ''music/Billie Eilish - bad guy.mp3''
        (enrich_metadata (enrich_services no_tagger) bad_guy
           ''music/Billie Eilish - bad guy.mp3'') = None"
    by (simp add: transcoder_run_def)
  have a: "acquire (\<lambda>i. no_tagger) ''music'' ''job-6'' 0 bad_guy no_files
       = Inr ((True, ''music/Billie Eilish - bad guy.mp3''),
              \<lparr>files = [''music/Billie Eilish - bad guy.mp3'' \<mapsto> 4096],
               invoked = [''Billie Eilish bad guy official audio lyrics'']\<rparr>)"
    by (simp add: acquire_def no_tagger_run)
  have h: "bad_guy ''title'' = Some (PStr ''bad guy'')"
    "bad_guy ''artist'' = Some (PStr ''Billie Eilish'')" "bad_guy ''album'' = None"
    by (simp_all add: bad_guy_def)
  from iteration_acquired
         [where call = "acquire (\<lambda>i. no_tagger) ''music'' ''job-6''" and i = 0 and s = bad_guy
            and st = no_files and download_id = "''job-6''" and n = 1 and r = fresh_runner,
          OF a h(1,2)]
  have it: "snd (iteration (acquire (\<lambda>i. no_tagger) ''music'' ''job-6'') ''job-6'' 1 0 bad_guy
            (fresh_runner, no_files))
       = Inr (\<lparr>completed = 1, failed = 0,
               downloaded_songs =
                 [[''title'' \<mapsto> PStr ''bad guy'', ''artist'' \<mapsto> PStr ''Billie Eilish'',
                   ''album'' \<mapsto> PNone,
                   ''filepath'' \<mapsto> PStr ''music/Billie Eilish - bad guy.mp3'',
                   ''status'' \<mapsto> PStr ''completed'']]\<rparr>,
              \<lparr>files = [''music/Billie Eilish - bad guy.mp3'' \<mapsto> 4096],
               invoked = [''Billie Eilish bad guy official audio lyrics'']\<rparr>)"
    by (simp add: h(3) fresh_runner_def)
  have y: "yt_dlp stuck_empty_download 0 ''a.mp3'' ''q'' = Finished 0 [] [] (Some 0)"
    by (simp add: stuck_empty_download_def)
  have f: "files (snd (snd (query_attempt stuck_empty_download bad_guy ''a.mp3'' 0 ''q'' ''none''
                         no_files))) ''a.mp3'' = Some 0"
    using query_attempt_empty_file(2) [OF y, of bad_guy "''none''" no_files]
    by (simp add: stuck_empty_download_def)
  from p tr a it y f show ?thesis by blast
qed

text \<open>
  Claim C10. The dictionary that the single-song endpoint hands to the job runner
  carries, under \<^verbatim>\<open>query\<close>, the text made of the trimmed artist, the trimmed title and
  \<^verbatim>\<open>official audio lyrics\<close>. The list of search queries built from it is this one
  query, not the five generated ones, and whatever the tool answers, the download of the
  song returns after handing exactly this one query to the tool.
\<close>

theorem single_song_one_query:
  "song_dict req ''query'' =
     Some (PStr (strip (req_artist req) @ '' '' @ strip (req_title req)
                 @ '' official audio lyrics''))
   \<and> build_search_queries (song_dict req) =
       Inr [strip (req_artist req) @ '' '' @ strip (req_title req) @ '' official audio lyrics'']
   \<and> (\<exists>r st1. download_song_async env (song_dict req) output_dir download_id k st = Inr (r, st1)
        \<and> invoked st1 = invoked st
            @ [strip (req_artist req) @ '' '' @ strip (req_title req)
               @ '' official audio lyrics''])"
proof -
  have q: "song_dict req ''query'' =
     Some (PStr (strip (req_artist req) @ '' '' @ strip (req_title req)
                 @ '' official audio lyrics''))"
    by (simp add: song_dict_def)
  have a: "getitem (song_dict req) ''artist'' = Inr (PStr (strip (req_artist req)))"
    and t: "getitem (song_dict req) ''title'' = Inr (PStr (strip (req_title req)))"
    by (simp_all add: song_dict_def getitem_def)
  define q1 where "q1 = strip (req_artist req) @ '' '' @ strip (req_title req)
                 @ '' official audio lyrics''"
  define p1 where "p1 = song_path output_dir (PStr (strip (req_artist req)))
     (PStr (strip (req_title req)))"
  have d: "download_song_async env (song_dict req) output_dir download_id k st =
      Inr (try_queries env (song_dict req) p1 1 0 [q1] ''No search queries succeeded'' st)"
    by (simp add: download_song_async_def a t song_dict_queries Let_def q1_def p1_def
          del: try_queries.simps)
  obtain r st1 where
    "try_queries env (song_dict req) p1 1 0 [q1] ''No search queries succeeded'' st = (r, st1)"
    and "invoked st1 = invoked st @ [q1]"
    using try_queries_single by blast
  with d q song_dict_queries show ?thesis
    unfolding q1_def by simp
qed

section \<open>The tracklist of an album: properties\<close>

lemma generated_tracks_length: "length (generated_tracks a b) = 12"
  by (simp add: generated_tracks_def upt_rec Let_def)

lemma generated_tracks_nonempty: "generated_tracks a b \<noteq> []"
  using generated_tracks_length [of a b] by auto

lemma album_tracks_body_nonempty:
  assumes "album_tracks_body env artist album = Inr tracks"
  shows "tracks \<noteq> []"
  using assms generated_tracks_nonempty [of "strip artist" "strip album"]
  unfolding album_tracks_body_def Let_def
  by (auto simp: then_do_Inr_iff
        split: response.splits if_splits option.splits list.splits)

lemma no_release_found_fallback:
  assumes "no_release_found env artist album"
  shows "album_tracks_body env artist album
           = Inr (generated_tracks (strip artist) (strip album))"
  using assms unfolding no_release_found_def album_tracks_body_def Let_def
  by (auto split: response.splits)

lemma get_album_tracks_nonempty: "get_album_tracks env artist album \<noteq> []"
proof (cases "album_tracks_body env artist album")
  case (Inl e)
  then show ?thesis by (simp add: get_album_tracks_def)
next
  case (Inr tracks)
  then show ?thesis
    using album_tracks_body_nonempty [OF Inr] by (simp add: get_album_tracks_def)
qed

text \<open>
  Claim C6. When the release directory has no match for the album, the tracklist
  resolver returns the generated tracklist, which has at least one and at most 12 songs.
  When its body raises, it returns exactly one song, which stands for the whole album
  (title and album are the album name, and the query asks for the full album). In every
  case the returned list is not empty.
\<close>

theorem tracklist_resolver_never_empty:
  "(no_release_found env artist album \<longrightarrow>
      get_album_tracks env artist album = generated_tracks (strip artist) (strip album)
      \<and> 0 < length (get_album_tracks env artist album)
      \<and> length (get_album_tracks env artist album) \<le> 12)
   \<and> (album_tracks_body env artist album = Inl e \<longrightarrow>
        get_album_tracks env artist album =
          [[''title'' \<mapsto> PStr album, ''artist'' \<mapsto> PStr artist, ''album'' \<mapsto> PStr album,
            ''query'' \<mapsto> PStr (artist @ '' '' @ album @ '' full album official'')]])
   \<and> get_album_tracks env artist album \<noteq> []"
proof (intro conjI impI)
  assume "no_release_found env artist album"
  then have g: "get_album_tracks env artist album
                  = generated_tracks (strip artist) (strip album)"
    by (simp add: get_album_tracks_def no_release_found_fallback)
  show "get_album_tracks env artist album = generated_tracks (strip artist) (strip album)"
    by (rule g)
  show "0 < length (get_album_tracks env artist album)"
    by (simp add: g generated_tracks_length)
  show "length (get_album_tracks env artist album) \<le> 12"
    by (simp add: g generated_tracks_length)
next
  assume "album_tracks_body env artist album = Inl e"
  then show "get_album_tracks env artist album =
          [[''title'' \<mapsto> PStr album, ''artist'' \<mapsto> PStr artist, ''album'' \<mapsto> PStr album,
            ''query'' \<mapsto> PStr (artist @ '' '' @ album @ '' full album official'')]]"
    by (simp add: get_album_tracks_def)
next
  show "get_album_tracks env artist album \<noteq> []"
    by (rule get_album_tracks_nonempty)
qed

theorem tracklist_resolver_never_empty_witness:
  "no_release_found directory_empty ''Muse'' ''Absolution''
   \<and> length (get_album_tracks directory_empty ''Muse'' ''Absolution'') = 12
   \<and> album_tracks_body directory_down ''Muse'' ''Absolution'' = Inl (Exception ''timed out'')
   \<and> length (get_album_tracks directory_down ''Muse'' ''Absolution'') = 1"
proof -
  have h1: "no_release_found directory_empty ''Muse'' ''Absolution''"
    by (simp add: no_release_found_def directory_empty_def)
  have h2: "album_tracks_body directory_down ''Muse'' ''Absolution''
              = Inl (Exception ''timed out'')"
    by (simp add: album_tracks_body_def directory_down_def Let_def)
  from h1 tracklist_resolver_never_empty [of directory_empty "''Muse''" "''Absolution''"]
  have "get_album_tracks directory_empty ''Muse'' ''Absolution''
          = generated_tracks (strip ''Muse'') (strip ''Absolution'')"
    by blast
  then have c1: "length (get_album_tracks directory_empty ''Muse'' ''Absolution'') = 12"
    by (simp add: generated_tracks_length)
  from h2 tracklist_resolver_never_empty
            [of directory_down "''Muse''" "''Absolution''" "Exception ''timed out''"]
  have c2: "length (get_album_tracks directory_down ''Muse'' ''Absolution'') = 1"
    by simp
  from h1 h2 c1 c2 show ?thesis by blast
qed

section \<open>Metadata enrichment: properties\<close>

lemma widens_refl: "widens s s"
  by (simp add: widens_def)

lemma widens_trans: "widens s t \<Longrightarrow> widens t u \<Longrightarrow> widens s u"
  unfolding widens_def by (metis order_trans)

lemma widens_upd: "k \<in> enrich_keys \<Longrightarrow> widens s (s(k \<mapsto> v))"
  by (auto simp: widens_def)

lemma key_facts:
  "''title'' \<in> enrich_keys" "''artist'' \<in> enrich_keys" "''album'' \<in> enrich_keys"
  "''cover_url'' \<in> enrich_keys" "''genre'' \<in> enrich_keys" "''track_number'' \<in> enrich_keys"
  "''duration_ms'' \<in> enrich_keys" "''lyrics'' \<in> enrich_keys"
  by (simp_all add: enrich_keys_def)

lemma widens_merge_title: "widens s (merge_title r s)"
  by (simp add: merge_title_def widens_refl widens_upd key_facts)

lemma widens_merge_artist: "widens s (merge_artist r s)"
  by (simp add: merge_artist_def widens_refl widens_upd key_facts Let_def split: list.splits)

lemma widens_merge_release: "widens s (merge_release http r s)"
  unfolding merge_release_def Let_def
  by (auto intro: widens_refl widens_upd widens_trans [OF widens_upd widens_upd] key_facts
       split: list.splits option.splits)

lemma widens_merge_genre: "merge_genre r s = Inr t \<Longrightarrow> widens s t"
  by (auto simp: merge_genre_def then_do_Inr_iff widens_refl widens_upd key_facts
        split: if_splits)

lemma widens_scan_tracks: "widens s (scan_tracks rid tracks s)"
  by (induction tracks)
     (auto simp: Let_def intro: widens_refl widens_upd
         widens_trans [OF widens_upd widens_upd] key_facts)

lemma widens_fold:
  assumes "\<And>x u. widens u (f x u)"
  shows "widens s (fold f xs s)"
proof (induction xs arbitrary: s)
  case Nil
  show ?case by (simp add: widens_refl)
next
  case (Cons x xs)
  have "widens s (f x s)" by (rule assms)
  moreover have "widens (f x s) (fold f xs (f x s))" by (rule Cons.IH)
  ultimately show ?case by (auto intro: widens_trans)
qed

lemma widens_merge_tracks: "widens s (merge_tracks r s)"
  unfolding merge_tracks_def
  by (intro widens_fold widens_scan_tracks)

lemma widens_merge_recording:
  assumes "merge_recording env r s = Inr t"
  shows "widens s t"
proof -
  from assms obtain s4 where
    g: "merge_genre r (merge_release (cover_http env) r (merge_artist r (merge_title r s)))
          = Inr s4"
    and t: "t = merge_tracks r s4"
    by (auto simp: merge_recording_def then_do_Inr_iff)
  have "widens s s4"
    using widens_trans [OF widens_merge_title
            widens_trans [OF widens_merge_artist
              widens_trans [OF widens_merge_release widens_merge_genre [OF g]]]] .
  then show ?thesis
    unfolding t using widens_merge_tracks widens_trans by blast
qed

lemma widens_merge_lyrics: "merge_lyrics env s = Inr t \<Longrightarrow> widens s t"
  by (auto simp: merge_lyrics_def then_do_Inr_iff widens_refl widens_upd key_facts
        split: if_splits)

lemma enrich_body_Inr:
  assumes "enrich_body env s = Inr t"
  obtains a t0 where
    "(case mb_search env (recording_query a t0) of
         Transport_error e \<Rightarrow> Inl (Exception e)
       | Response code body \<Rightarrow>
           if code = 200 then
             (case body of
                None \<Rightarrow> Inl (Exception ''response is not JSON'')
              | Some recordings \<Rightarrow>
                  (case recordings of
                     [] \<Rightarrow> merge_lyrics env s
                   | recording # _ \<Rightarrow>
                       then_do (merge_recording env recording s) (merge_lyrics env)))
           else merge_lyrics env s) = Inr t"
  using assms unfolding enrich_body_def then_do_Inr_iff by blast

lemma enrich_body_cases:
  assumes "enrich_body env s = Inr t"
  shows "merge_lyrics env s = Inr t
         \<or> (\<exists>r s1. merge_recording env r s = Inr s1 \<and> merge_lyrics env s1 = Inr t)"
proof -
  from assms obtain a t0 where
    c: "(case mb_search env (recording_query a t0) of
         Transport_error e \<Rightarrow> Inl (Exception e)
       | Response code body \<Rightarrow>
           if code = 200 then
             (case body of
                None \<Rightarrow> Inl (Exception ''response is not JSON'')
              | Some recordings \<Rightarrow>
                  (case recordings of
                     [] \<Rightarrow> merge_lyrics env s
                   | recording # _ \<Rightarrow>
                       then_do (merge_recording env recording s) (merge_lyrics env)))
           else merge_lyrics env s) = Inr t"
    by (rule enrich_body_Inr)
  show ?thesis
  proof (cases "mb_search env (recording_query a t0)")
    case (Transport_error e)
    with c show ?thesis by simp
  next
    case (Response code body)
    show ?thesis
    proof (cases "code = 200")
      case False
      with c Response show ?thesis by simp
    next
      case True
      show ?thesis
      proof (cases body)
        case None
        with c Response True show ?thesis by simp
      next
        case (Some recordings)
        show ?thesis
        proof (cases recordings)
          case Nil
          with c Response True Some show ?thesis by simp
        next
          case (Cons r rs)
          with c Response True Some
          have "then_do (merge_recording env r s) (merge_lyrics env) = Inr t" by simp
          then show ?thesis unfolding then_do_Inr_iff by blast
        qed
      qed
    qed
  qed
qed

lemma widens_enrich_body:
  assumes "enrich_body env s = Inr t"
  shows "widens s t"
  using enrich_body_cases [OF assms]
  by (auto intro: widens_merge_lyrics widens_trans [OF widens_merge_recording widens_merge_lyrics])

lemma widens_enrich_metadata: "widens s (enrich_metadata env s filepath)"
  by (auto simp: enrich_metadata_def widens_refl widens_enrich_body split: sum.splits)

lemma get_song_lyrics_no_data:
  assumes "no_data env" and "get_song_lyrics env a t = Inr l"
  shows "l = None"
  using assms unfolding get_song_lyrics_def no_data_def Let_def
  by (auto simp: then_do_Inr_iff)

lemma merge_lyrics_no_data:
  assumes "no_data env" and "merge_lyrics env s = Inr t"
  shows "t = s"
proof -
  from assms(2) obtain a t0 l where
    l: "get_song_lyrics env a t0 = Inr l"
    and r: "t = (if truthy_str l then s(''lyrics'' \<mapsto> PStr (the l)) else s)"
    unfolding merge_lyrics_def then_do_Inr_iff by (auto split: if_splits)
  from get_song_lyrics_no_data [OF assms(1) l] have "l = None" .
  with r show ?thesis by (simp add: truthy_str_def)
qed

lemma enrich_body_no_data:
  assumes "no_data env" and "enrich_body env s = Inr t"
  shows "t = s"
proof -
  from assms(2) obtain a t0 where
    c: "(case mb_search env (recording_query a t0) of
         Transport_error e \<Rightarrow> Inl (Exception e)
       | Response code body \<Rightarrow>
           if code = 200 then
             (case body of
                None \<Rightarrow> Inl (Exception ''response is not JSON'')
              | Some recordings \<Rightarrow>
                  (case recordings of
                     [] \<Rightarrow> merge_lyrics env s
                   | recording # _ \<Rightarrow>
                       then_do (merge_recording env recording s) (merge_lyrics env)))
           else merge_lyrics env s) = Inr t"
    by (rule enrich_body_Inr)
  from assms(1) have q: "case mb_search env (recording_query a t0) of
             Transport_error e \<Rightarrow> True
           | Response code body \<Rightarrow> code \<noteq> 200 \<or> body = None \<or> body = Some []"
    unfolding no_data_def by blast
  have "merge_lyrics env s = Inr t"
  proof (cases "mb_search env (recording_query a t0)")
    case (Transport_error e)
    with c show ?thesis by simp
  next
    case (Response code body)
    with q have "code \<noteq> 200 \<or> body = None \<or> body = Some []" by simp
    with c Response show ?thesis by (auto split: if_splits)
  qed
  then show ?thesis by (rule merge_lyrics_no_data [OF assms(1)])
qed

text \<open>
  Claim C7. Enrichment never removes a field: every key of the song is a key of the
  enriched song, and a key that the enrichment does not write keeps its value. When the
  body of the enrichment raises (a provider error that is not swallowed on the way, or
  directory data that cannot be read), the original song is returned. When no provider
  has data, the original song is returned as well.
\<close>

theorem enrichment_never_narrows:
  "dom s \<subseteq> dom (enrich_metadata env s filepath)
   \<and> (k \<notin> enrich_keys \<longrightarrow> enrich_metadata env s filepath k = s k)
   \<and> (enrich_body env s = Inl e \<longrightarrow> enrich_metadata env s filepath = s)
   \<and> (no_data env \<longrightarrow> enrich_metadata env s filepath = s)"
proof (intro conjI impI)
  have w: "widens s (enrich_metadata env s filepath)"
    by (rule widens_enrich_metadata)
  from w show "dom s \<subseteq> dom (enrich_metadata env s filepath)"
    by (simp add: widens_def)
  assume "k \<notin> enrich_keys"
  with w show "enrich_metadata env s filepath k = s k"
    by (simp add: widens_def)
next
  assume "enrich_body env s = Inl e"
  then show "enrich_metadata env s filepath = s"
    by (simp add: enrich_metadata_def)
next
  assume n: "no_data env"
  show "enrich_metadata env s filepath = s"
  proof (cases "enrich_body env s")
    case (Inl e1)
    then show ?thesis by (simp add: enrich_metadata_def)
  next
    case (Inr t)
    with enrich_body_no_data [OF n Inr] show ?thesis
      by (simp add: enrich_metadata_def)
  qed
qed

theorem enrichment_never_narrows_witness:
  "''query'' \<notin> enrich_keys
   \<and> enrich_body services_down bad_guy = Inl (Exception ''timed out'')
   \<and> no_data services_down
   \<and> enrich_metadata services_down bad_guy ''bad guy.mp3'' ''query'' = bad_guy ''query''
   \<and> enrich_metadata services_down bad_guy ''bad guy.mp3'' = bad_guy"
proof -
  have h1: "''query'' \<notin> enrich_keys"
    by (simp add: enrich_keys_def)
  have h2: "enrich_body services_down bad_guy = Inl (Exception ''timed out'')"
    by (simp add: enrich_body_def services_down_def bad_guy_def getitem_def)
  have h3: "no_data services_down"
    by (simp add: no_data_def services_down_def lyrics_from_ovh_def lyrics_from_lrclib_def)
  note t = enrichment_never_narrows
             [of bad_guy services_down "''bad guy.mp3''" "''query''" "Exception ''timed out''"]
  from t h1 have c1:
    "enrich_metadata services_down bad_guy ''bad guy.mp3'' ''query'' = bad_guy ''query''"
    by blast
  from t h3 have c2: "enrich_metadata services_down bad_guy ''bad guy.mp3'' = bad_guy"
    by blast
  from h1 h2 h3 c1 c2 show ?thesis by blast
qed

section \<open>The job runner: what it writes\<close>

lemma writes_ok_append: "writes_ok d (xs @ ys) \<longleftrightarrow> writes_ok d xs \<and> writes_ok d ys"
  by (auto simp: writes_ok_def)

lemma writes_ok_Nil: "writes_ok d []"
  by (simp add: writes_ok_def)

lemma writes_ok_Cons: "writes_ok d (x # xs) \<longleftrightarrow>
    (case written x of None \<Rightarrow> True | Some (d1, r) \<Rightarrow> d1 = d \<and> record_ok r) \<and> writes_ok d xs"
  by (auto simp: writes_ok_def)

lemma record_ok_counters:
  "record_ok ((counters t c f p es)\<lparr>status := st\<rparr>) \<longleftrightarrow>
     c + f \<le> t \<and> ((st = ''completed'' \<or> st = ''error'') \<longrightarrow> c + f = t) \<and> length es = c + f"
  by (simp add: record_ok_def counters_def no_kwargs_def)

lemma writes_ok_intro: "writes_ok d (single_song_intro d n)"
  by (simp add: single_song_intro_def writes_ok_Cons writes_ok_Nil record_ok_counters)

lemma handle_exception_Inr:
  assumes "handle_exception s e r = Inr r1"
  shows "completed r1 = completed r \<and> failed r1 = Suc (failed r)
         \<and> length (downloaded_songs r1) = Suc (length (downloaded_songs r))"
  using assms by (auto simp: handle_exception_def then_do_Inr_iff)

lemma iteration_inv:
  assumes it: "iteration call d n i s (r, st) = (ops, res)"
    and i: "i < n" and c: "completed r + failed r = i" and l: "length (downloaded_songs r) = i"
  shows "writes_ok d ops
         \<and> (\<forall>r1 st1. res = Inr (r1, st1) \<longrightarrow>
               completed r1 + failed r1 = Suc i \<and> length (downloaded_songs r1) = Suc i)"
proof (cases "call i s st")
  case (Inl e)
  from Inl it have ops: "ops = single_song_intro d n @ [Download i]"
    and res: "res = then_do (handle_exception s e r) (\<lambda>r1. Inr (r1, st))"
    by (simp_all add: iteration_def)
  have "writes_ok d ops"
    by (simp add: ops writes_ok_append writes_ok_intro writes_ok_Cons writes_ok_Nil)
  moreover have "\<forall>r1 st1. res = Inr (r1, st1) \<longrightarrow>
               completed r1 + failed r1 = Suc i \<and> length (downloaded_songs r1) = Suc i"
  proof (intro allI impI)
    fix r1 st1 assume "res = Inr (r1, st1)"
    then have "then_do (handle_exception s e r) (\<lambda>r1. Inr (r1, st)) = Inr (r1, st1)"
      unfolding res .
    then have "handle_exception s e r = Inr r1"
      by (simp add: then_do_Inr_iff)
    from handle_exception_Inr [OF this] c l
    show "completed r1 + failed r1 = Suc i \<and> length (downloaded_songs r1) = Suc i"
      by simp
  qed
  ultimately show ?thesis by blast
next
  case (Inr x)
  then obtain success result_msg st1 where x: "call i s st = Inr ((success, result_msg), st1)"
    by (cases x) auto
  define r1 where "r1 = (if success then r\<lparr>completed := completed r + 1\<rparr>
                        else r\<lparr>failed := failed r + 1\<rparr>)"
  define processing where "processing =
                    (if success \<and> n = 1
                     then [Update d ''downloading'' (counters 1 0 0 75 []), Suspend]
                     else [])"
  define entry where "entry = (if success then song_entry s ''filepath'' result_msg ''completed''
                           else song_entry s ''error'' result_msg ''failed'')"
  have r1: "completed r1 + failed r1 = Suc i" "downloaded_songs r1 = downloaded_songs r"
    using c by (auto simp: r1_def)
  have wp: "writes_ok d processing"
    by (simp add: processing_def writes_ok_Cons writes_ok_Nil record_ok_counters)
  show ?thesis
  proof (cases entry)
    case (Inl e)
    from x Inl it have ops: "ops = single_song_intro d n @ [Download i] @ processing"
      and res: "res = then_do (handle_exception s e r1) (\<lambda>r2. Inr (r2, st1))"
      by (simp_all add: iteration_def Let_def r1_def processing_def entry_def)
    from Inl have "handle_exception s e r1 = Inl e"
      by (auto simp: entry_def handle_exception_def song_entry_def then_do_Inl_iff
             split: if_splits)
    then have "\<forall>r2 st2. res \<noteq> Inr (r2, st2)" by (simp add: res)
    moreover have "writes_ok d ops"
      by (simp add: ops writes_ok_append writes_ok_intro writes_ok_Cons writes_ok_Nil wp)
    ultimately show ?thesis by blast
  next
    case (Inr ent)
    define r2 where "r2 = r1\<lparr>downloaded_songs := downloaded_songs r1 @ [ent]\<rparr>"
    from x Inr it have ops: "ops = single_song_intro d n @ [Download i] @ processing
                            @ [Update d (song_status r2 n)
                                 (counters n (completed r2) (failed r2) (song_progress i n)
                                    (downloaded_songs r2))]
                            @ (if 1 < n then [Suspend] else [])"
      and res: "res = Inr (r2, st1)"
      by (simp_all add: iteration_def Let_def r1_def processing_def entry_def r2_def)
    have r2: "completed r2 + failed r2 = Suc i" "length (downloaded_songs r2) = Suc i"
      using r1 l by (simp_all add: r2_def)
    have "record_ok ((counters n (completed r2) (failed r2) (song_progress i n)
                                    (downloaded_songs r2))\<lparr>status := song_status r2 n\<rparr>)"
      using r2 i by (auto simp: record_ok_counters song_status_def)
    then have "writes_ok d ops"
      by (simp add: ops writes_ok_append writes_ok_intro writes_ok_Cons writes_ok_Nil wp)
    with res r2 show ?thesis by simp
  qed
qed

lemma song_loop_inv:
  assumes "song_loop call d n i ss (r, st) = (ops, res)"
    and "i + length ss = n" and "completed r + failed r = i"
    and "length (downloaded_songs r) = i"
  shows "writes_ok d ops
         \<and> (\<forall>r1 st1. res = Inr (r1, st1) \<longrightarrow>
               completed r1 + failed r1 = n \<and> length (downloaded_songs r1) = n)"
  using assms
proof (induction ss arbitrary: i r st ops res)
  case Nil
  then show ?case by (auto simp: writes_ok_Nil)
next
  case (Cons s ss)
  obtain ops0 res0 where it: "iteration call d n i s (r, st) = (ops0, res0)"
    by (cases "iteration call d n i s (r, st)") auto
  from Cons.prems(2) have i: "i < n" by simp
  note inv = iteration_inv [OF it i Cons.prems(3,4)]
  show ?case
  proof (cases res0)
    case (Inl e)
    with Cons.prems(1) it have "ops = ops0" "res = Inl e" by simp_all
    with inv show ?thesis by simp
  next
    case (Inr rs1)
    obtain r1 st1 where rs1: "rs1 = (r1, st1)" by (cases rs1) auto
    obtain ops1 res1 where lp: "song_loop call d n (Suc i) ss (r1, st1) = (ops1, res1)"
      by (cases "song_loop call d n (Suc i) ss (r1, st1)") auto
    from Cons.prems(1) it Inr rs1 lp have o: "ops = ops0 @ ops1" "res = res1" by simp_all
    from inv Inr rs1 have c1: "completed r1 + failed r1 = Suc i"
      "length (downloaded_songs r1) = Suc i" by simp_all
    from Cons.prems(2) have "Suc i + length ss = n" by simp
    from Cons.IH [OF lp this c1] inv o show ?thesis
      by (simp add: writes_ok_append)
  qed
qed

lemma playlist_step_ok: "writes_ok d (fst (playlist_step w dir d n rs))"
  by (cases rs)
     (auto simp: playlist_step_def Let_def writes_ok_Cons writes_ok_Nil record_ok_def no_kwargs_def
        split: sum.splits prod.splits)

lemma process_song_download_ok:
  "writes_ok d (fst (process_song_download call w dir d song_list st))"
proof -
  obtain ops res where lp: "song_loop call d (length song_list) 0 song_list
                (\<lparr>completed = 0, failed = 0, downloaded_songs = []\<rparr>, st) = (ops, res)"
    by (cases "song_loop call d (length song_list) 0 song_list
                (\<lparr>completed = 0, failed = 0, downloaded_songs = []\<rparr>, st)") auto
  from song_loop_inv [OF lp] have w: "writes_ok d ops" by simp
  have s: "record_ok ((counters (length song_list) 0 0 0 [])\<lparr>status := ''downloading''\<rparr>)"
    by (simp add: record_ok_counters)
  show ?thesis
  proof (cases res)
    case (Inl e)
    with lp w s show ?thesis
      by (simp add: process_song_download_def Let_def writes_ok_Cons)
  next
    case (Inr rs)
    obtain r st1 where rs: "rs = (r, st1)" by (cases rs) auto
    obtain ops1 st2 where ps: "playlist_step w dir d (length song_list) (r, st1) = (ops1, st2)"
      by (cases "playlist_step w dir d (length song_list) (r, st1)") auto
    from playlist_step_ok [of d w dir "length song_list" "(r, st1)"] ps
    have "writes_ok d ops1" by simp
    with Inr rs lp ps w s show ?thesis
      by (simp add: process_song_download_def Let_def writes_ok_Cons writes_ok_append)
  qed
qed

section \<open>The job table under any schedule\<close>

lemma update_store_ok:
  assumes "store_ok d" and "record_ok (kw\<lparr>status := st\<rparr>)"
  shows "store_ok (update_download_status i st kw d)"
  using assms by (simp add: store_ok_def update_download_status_def)

lemma cancel_store_ok:
  assumes "store_ok d"
  shows "store_ok (snd (cancel_download_status i d))"
proof -
  have "record_ok (no_kwargs\<lparr>status := ''cancelled''\<rparr>)"
    by (simp add: record_ok_def no_kwargs_def)
  with assms show ?thesis
    by (simp add: cancel_download_status_def get_download_status_def update_store_ok
          split: option.splits)
qed

lemma act_store_ok:
  assumes "store_ok (db s)"
    and "\<And>op. a = Runner op \<Longrightarrow>
           (case written op of None \<Rightarrow> True | Some (d1, r) \<Rightarrow> record_ok r)"
  shows "store_ok (db (act a s))"
proof (cases a)
  case (Runner op)
  with assms(2) have w: "case written op of None \<Rightarrow> True | Some (d1, r) \<Rightarrow> record_ok r"
    by simp
  show ?thesis
  proof (cases op)
    case (Update i st kw)
    with w assms(1) Runner show ?thesis by (simp add: update_store_ok)
  next
    case (Download i)
    with assms(1) Runner show ?thesis by simp
  next
    case Suspend
    with assms(1) Runner show ?thesis by simp
  qed
next
  case (Client request)
  then show ?thesis using assms(1) by (cases request) (simp add: cancel_store_ok)
qed

lemma run_store_ok:
  assumes "store_ok (db s)"
    and "\<forall>op. Runner op \<in> set acts \<longrightarrow>
           (case written op of None \<Rightarrow> True | Some (d1, r) \<Rightarrow> record_ok r)"
    and "s1 \<in> set (run acts s)"
  shows "store_ok (db s1)"
  using assms
proof (induction acts arbitrary: s)
  case Nil
  then show ?case by simp
next
  case (Cons a acts)
  have ok: "store_ok (db (act a s))"
    using Cons.prems(1,2) by (intro act_store_ok) auto
  from Cons.prems(3) have "s1 = act a s \<or> s1 \<in> set (run acts (act a s))" by simp
  then show ?case
  proof
    assume "s1 = act a s" with ok show ?thesis by simp
  next
    assume "s1 \<in> set (run acts (act a s))"
    with Cons.IH [OF ok] Cons.prems(2) show ?thesis by simp
  qed
qed

lemma interleave_runner:
  "Runner op \<in> set (interleave ops sched) \<Longrightarrow> op \<in> set ops"
  by (induction ops sched rule: interleave.induct) auto

lemma run_interleave_store_ok:
  assumes "store_ok (db s)" and "writes_ok d ops"
    and "s1 \<in> set (run (interleave ops sched) s)"
  shows "store_ok (db s1)"
proof (rule run_store_ok [OF assms(1) _ assms(3)], intro allI impI)
  fix op assume "Runner op \<in> set (interleave ops sched)"
  then have "op \<in> set ops" by (rule interleave_runner)
  with assms(2) show "case written op of None \<Rightarrow> True | Some (d1, r) \<Rightarrow> record_ok r"
    by (auto simp: writes_ok_def split: option.splits)
qed

lemma song_endpoint_ok:
  "writes_ok d (fst (download_song_endpoint call w dir d req st))"
proof -
  obtain ops res where p: "process_song_download call w dir d [song_dict req] st = (ops, res)"
    by (cases "process_song_download call w dir d [song_dict req] st") auto
  have "record_ok (no_kwargs\<lparr>total_songs := Some 1, completed_songs := Some 0,
                     status := ''starting''\<rparr>)"
    by (simp add: record_ok_def no_kwargs_def)
  moreover from process_song_download_ok [of d call w dir "[song_dict req]" st] p
  have "writes_ok d ops" by simp
  ultimately show ?thesis
    by (simp add: download_song_endpoint_def writes_ok_Cons p)
qed

lemma album_endpoint_ok:
  "writes_ok d (fst (download_album_endpoint tenv call w dir d areq st))"
proof -
  define tracks where
    "tracks = get_album_tracks tenv (strip (areq_artist areq)) (strip (areq_album areq))"
  obtain ops res where p: "process_song_download call w dir d tracks st = (ops, res)"
    by (cases "process_song_download call w dir d tracks st") auto
  have a: "record_ok (no_kwargs\<lparr>status := ''searching_tracks''\<rparr>)"
    by (simp add: record_ok_def no_kwargs_def)
  have b: "record_ok (no_kwargs\<lparr>total_songs := Some (length tracks),
                     completed_songs := Some 0, songs := Some [], status := ''starting''\<rparr>)"
    by (simp add: record_ok_def no_kwargs_def)
  from process_song_download_ok [of d call w dir tracks st] p
  have c: "writes_ok d ops" by simp
  show ?thesis
    using a b c
    by (simp add: download_album_endpoint_def Let_def writes_ok_Cons writes_ok_Nil p
          tracks_def [symmetric])
qed

section \<open>Counters of a job\<close>

text \<open>
  Claim C3, as the code has it. Take a job created by one of the two download endpoints,
  any schedule of cancel requests, and a job table that is consistent before the
  request. Every record that the job table holds afterwards and that carries the total,
  the completed and the failed count satisfies: completed and failed together are not
  more than the total; they are the total when the status of the record is
  \<^verbatim>\<open>completed\<close> or \<^verbatim>\<open>error\<close>; and the song list of the record, when it has one, has one
  entry for each completed or failed song. Every write replaces the whole record, so the
  fields of a record always belong together; but a record need not carry the counters.
\<close>

theorem counters_consistent_when_present:
  assumes "ops = fst (download_song_endpoint call writable output_dir download_id req st)
           \<or> ops = fst (download_album_endpoint tenv call writable output_dir download_id
                          album_req st)"
    and "store_ok (db s0)"
    and "s1 \<in> set (run (interleave ops sched) s0)"
    and "db s1 d = Some r"
    and "total_songs r = Some t" and "completed_songs r = Some c" and "failed_songs r = Some f"
  shows "c + f \<le> t
         \<and> (status r = ''completed'' \<or> status r = ''error'' \<longrightarrow> c + f = t)
         \<and> (\<forall>entries. songs r = Some entries \<longrightarrow> length entries = c + f)"
proof -
  from assms(1) have "writes_ok download_id ops"
    using song_endpoint_ok album_endpoint_ok by blast
  from run_interleave_store_ok [OF assms(2) this assms(3)] assms(4)
  have "record_ok r" by (simp add: store_ok_def)
  with assms(5-7) show ?thesis
    by (auto simp: record_ok_def split: if_splits)
qed

theorem counters_consistent_when_present_witness:
  "store_ok (db idle_service)
   \<and> last tag_failure_run \<in> set tag_failure_run
   \<and> map_option status (db (last tag_failure_run) ''job-4'') = Some ''error''
   \<and> map_option total_songs (db (last tag_failure_run) ''job-4'') = Some (Some 1)
   \<and> map_option completed_songs (db (last tag_failure_run) ''job-4'') = Some (Some 0)
   \<and> map_option failed_songs (db (last tag_failure_run) ''job-4'') = Some (Some 1)
   \<and> the (completed_songs (the (db (last tag_failure_run) ''job-4'')))
       + the (failed_songs (the (db (last tag_failure_run) ''job-4'')))
       = the (total_songs (the (db (last tag_failure_run) ''job-4'')))"
proof -
  define s1 where "s1 = last tag_failure_run"
  define r where "r = the (db s1 ''job-4'')"
  have ok: "store_ok (db idle_service)"
    by (simp add: store_ok_def idle_service_def)
  have "length tag_failure_run = 6" by code_simp
  then have "tag_failure_run \<noteq> []" by auto
  then have mem: "s1 \<in> set tag_failure_run" by (simp add: s1_def)
  have st: "map_option status (db (last tag_failure_run) ''job-4'') = Some ''error''"
    by code_simp
  have t: "map_option total_songs (db (last tag_failure_run) ''job-4'') = Some (Some 1)"
    by code_simp
  have c: "map_option completed_songs (db (last tag_failure_run) ''job-4'') = Some (Some 0)"
    by code_simp
  have f: "map_option failed_songs (db (last tag_failure_run) ''job-4'') = Some (Some 1)"
    by code_simp
  from st have some: "db s1 ''job-4'' = Some r"
    by (auto simp: r_def s1_def)
  from some st t c f have r: "status r = ''error''" "total_songs r = Some 1"
    "completed_songs r = Some 0" "failed_songs r = Some 1"
    by (simp_all add: s1_def [symmetric])
  have "0 + 1 \<le> (1::nat)
         \<and> (status r = ''completed'' \<or> status r = ''error'' \<longrightarrow> 0 + 1 = (1::nat))
         \<and> (\<forall>entries. songs r = Some entries \<longrightarrow> length entries = 0 + 1)"
    by (rule counters_consistent_when_present
              [OF disjI1 [OF refl] ok mem [unfolded tag_failure_run_def] some r(2-4)])
  with r have "the (completed_songs r) + the (failed_songs r) = the (total_songs r)"
    by simp
  with ok mem st t c f show ?thesis
    unfolding r_def s1_def by blast
qed

text \<open>
  A record without counters: the cancel request writes the status alone. In the run of
  the cancelled album job the record before the cancel request carries a total of two
  songs, and the record after it carries no total, no completed count, no failed count
  and no song list.
\<close>

theorem cancelled_record_has_no_counters:
  "map_option status (db (cancelled_album_run ! 3) ''job-3'') = Some ''downloading''
   \<and> map_option total_songs (db (cancelled_album_run ! 3) ''job-3'') = Some (Some 2)
   \<and> map_option status (db (cancelled_album_run ! 4) ''job-3'') = Some ''cancelled''
   \<and> map_option total_songs (db (cancelled_album_run ! 4) ''job-3'') = Some None
   \<and> map_option completed_songs (db (cancelled_album_run ! 4) ''job-3'') = Some None
   \<and> map_option failed_songs (db (cancelled_album_run ! 4) ''job-3'') = Some None
   \<and> map_option (\<lambda>r. map_option length (songs r)) (db (cancelled_album_run ! 4) ''job-3'')
       = Some None"
  by code_simp

section \<open>Cancellation and the end of a job\<close>

text \<open>
  Claim C1 asks that a cancelled job is not changed any more and that no further song is
  acquired. The runner never reads the job table, so it cannot notice a cancellation:
  in the run below a single-song job is cancelled right after its creation; the runner
  then overwrites the status \<^verbatim>\<open>cancelled\<close> with \<^verbatim>\<open>downloading\<close>, starts the download
  of the song, and ends the job with the status \<^verbatim>\<open>completed\<close>. The three components
  of each line are the status of the job, its progress, and the songs whose download has
  started.
\<close>

theorem cancelled_song_job_keeps_running:
  "map (\<lambda>s. (map_option status (db s ''job-1''), map_option progress (db s ''job-1''),
              started s)) cancelled_song_run =
     [(Some ''starting'', Some None, []),
      (Some ''cancelled'', Some None, []),
      (Some ''downloading'', Some (Some 0), []),
      (Some ''downloading'', Some (Some 10), []),
      (Some ''downloading'', Some (Some 25), []),
      (Some ''downloading'', Some (Some 25), [0]),
      (Some ''downloading'', Some (Some 75), [0]),
      (Some ''completed'', Some (Some 100), [0])]"
  by code_simp

text \<open>
  Claim C2 asks that a job that ran to its end has the status \<^verbatim>\<open>error\<close> when a song
  failed. In the run below the second of two tracks fails. The status written after the
  last song is \<^verbatim>\<open>error\<close>, with one failed song; the playlist step then replaces the
  record by one with the status \<^verbatim>\<open>completed\<close>, the playlist path and the song list (which
  holds the failed song), and without the counters.
\<close>

theorem partly_failed_album_ends_completed:
  "map (\<lambda>s. (map_option status (db s ''job-2''), map_option failed_songs (db s ''job-2'')))
       (drop 6 half_album_run) =
     [(Some ''error'', Some (Some 1)), (Some ''completed'', Some None)]
   \<and> map (\<lambda>entry. entry ''status'') (the (songs (the (db (last half_album_run) ''job-2'')))) =
       [Some (PStr ''completed''), Some (PStr ''failed'')]
   \<and> map_option playlist_path (db (last half_album_run) ''job-2'')
       = Some (Some ''music/job-2.m3u'')"
  by code_simp

section \<open>Exceptions in the job runner\<close>

lemma iteration_raised:
  assumes "call i s st = Inl e" and "s ''title'' = Some t" and "s ''artist'' = Some a"
  shows "iteration call d n i s (r, st) =
           (single_song_intro d n @ [Download i],
            Inr (r\<lparr>failed := failed r + 1,
                   downloaded_songs := downloaded_songs r @
                     [[''title'' \<mapsto> t, ''artist'' \<mapsto> a,
                       ''album'' \<mapsto> (case s ''album'' of None \<Rightarrow> PNone | Some v \<Rightarrow> v),
                       ''error'' \<mapsto> PStr (str_exn e), ''status'' \<mapsto> PStr ''error'']]\<rparr>, st))"
  using assms
  by (simp add: iteration_def handle_exception_def song_entry_def getitem_def)

lemma song_entry_Inr:
  assumes "s ''title'' \<noteq> None" and "s ''artist'' \<noteq> None"
  shows "\<exists>entry. song_entry s key msg st = Inr entry"
  using assms by (auto simp: song_entry_def getitem_def)

lemma iteration_returns:
  assumes "s ''title'' \<noteq> None" and "s ''artist'' \<noteq> None"
  shows "\<exists>ops r1 st1. iteration call d n i s (r, st) = (ops, Inr (r1, st1))"
proof (cases "call i s st")
  case (Inl e)
  from assms obtain t a where ta: "s ''title'' = Some t" "s ''artist'' = Some a" by auto
  from iteration_raised [of call i s st e t a d n r] Inl ta show ?thesis by simp
next
  case (Inr x)
  obtain success result_msg st1 where x: "x = ((success, result_msg), st1)"
    by (cases x) auto
  obtain e1 where e1: "song_entry s ''filepath'' result_msg ''completed'' = Inr e1"
    using song_entry_Inr [OF assms] by blast
  obtain e2 where e2: "song_entry s ''error'' result_msg ''failed'' = Inr e2"
    using song_entry_Inr [OF assms] by blast
  show ?thesis
  proof (cases success)
    case True
    with Inr x e1 show ?thesis by (simp add: iteration_def Let_def)
  next
    case False
    with Inr x e2 show ?thesis by (simp add: iteration_def Let_def)
  qed
qed

lemma song_loop_returns:
  assumes "\<forall>s \<in> set ss. s ''title'' \<noteq> None \<and> s ''artist'' \<noteq> None"
  shows "\<exists>ops r1 st1. song_loop call d n i ss (r, st) = (ops, Inr (r1, st1))"
  using assms
proof (induction ss arbitrary: i r st)
  case Nil
  show ?case by simp
next
  case (Cons s ss)
  from Cons.prems have "s ''title'' \<noteq> None" "s ''artist'' \<noteq> None" by simp_all
  from iteration_returns [OF this] obtain ops0 r0 st0 where
    it: "iteration call d n i s (r, st) = (ops0, Inr (r0, st0))" by blast
  from Cons.prems have "\<forall>s \<in> set ss. s ''title'' \<noteq> None \<and> s ''artist'' \<noteq> None" by simp
  from Cons.IH [OF this] obtain ops1 r1 st1 where
    "song_loop call d n (Suc i) ss (r0, st0) = (ops1, Inr (r1, st1))" by blast
  with it show ?case by simp
qed

lemma process_song_download_returns:
  assumes "\<forall>s \<in> set song_list. s ''title'' \<noteq> None \<and> s ''artist'' \<noteq> None"
  shows "\<exists>ops r1 st1. process_song_download call w dir d song_list st = (ops, Inr (r1, st1))
           \<and> length (downloaded_songs r1) = length song_list
           \<and> completed r1 + failed r1 = length song_list"
proof -
  from song_loop_returns [OF assms] obtain ops r1 st1 where
    lp: "song_loop call d (length song_list) 0 song_list
           (\<lparr>completed = 0, failed = 0, downloaded_songs = []\<rparr>, st) = (ops, Inr (r1, st1))"
    by blast
  from song_loop_inv [OF lp]
  have c: "completed r1 + failed r1 = length song_list"
    "length (downloaded_songs r1) = length song_list"
    by simp_all
  obtain ops1 st2 where
    ps: "playlist_step w dir d (length song_list) (r1, st1) = (ops1, st2)"
    by (cases "playlist_step w dir d (length song_list) (r1, st1)") auto
  from lp ps have "process_song_download call w dir d song_list st
                     = (Update d ''downloading'' (counters (length song_list) 0 0 0 [])
                        # ops @ ops1, Inr (r1, st2))"
    by (simp add: process_song_download_def Let_def)
  with c show ?thesis by blast
qed

lemma raising_song_job:
  "download_song_endpoint (\<lambda>i s st. Inl e) writable output_dir download_id req st =
     ([Update download_id ''starting''
         (no_kwargs\<lparr>total_songs := Some 1, completed_songs := Some 0\<rparr>),
       Suspend,
       Update download_id ''downloading'' (counters 1 0 0 0 []),
       Update download_id ''downloading'' (counters 1 0 0 10 []),
       Suspend,
       Update download_id ''downloading'' (counters 1 0 0 25 []),
       Download 0],
      Inr (\<lparr>completed = 0, failed = 1,
             downloaded_songs =
               [[''title'' \<mapsto> PStr (strip (req_title req)),
                 ''artist'' \<mapsto> PStr (strip (req_artist req)),
                 ''album'' \<mapsto> PStr (if truthy_str (req_album req)
                                       then strip (the (req_album req))
                                       else ''Unknown Album''),
                 ''error'' \<mapsto> PStr (str_exn e), ''status'' \<mapsto> PStr ''error'']]\<rparr>, st))"
proof -
  have t: "song_dict req ''title'' = Some (PStr (strip (req_title req)))"
    and a: "song_dict req ''artist'' = Some (PStr (strip (req_artist req)))"
    and al: "song_dict req ''album'' =
               Some (PStr (if truthy_str (req_album req) then strip (the (req_album req))
                           else ''Unknown Album''))"
    by (simp_all add: song_dict_def)
  have it: "iteration (\<lambda>i s st. Inl e) download_id 1 0 (song_dict req)
              (\<lparr>completed = 0, failed = 0, downloaded_songs = []\<rparr>, st) =
        (single_song_intro download_id 1 @ [Download 0],
         Inr (\<lparr>completed = 0, failed = 1,
                downloaded_songs =
                  [[''title'' \<mapsto> PStr (strip (req_title req)),
                    ''artist'' \<mapsto> PStr (strip (req_artist req)),
                    ''album'' \<mapsto> PStr (if truthy_str (req_album req)
                                          then strip (the (req_album req))
                                          else ''Unknown Album''),
                    ''error'' \<mapsto> PStr (str_exn e), ''status'' \<mapsto> PStr ''error'']]\<rparr>, st))"
    using iteration_raised
            [where call = "\<lambda>i s st. Inl e" and i = 0 and s = "song_dict req" and st = st
               and e = e and d = download_id and n = 1
               and r = "\<lparr>completed = 0, failed = 0, downloaded_songs = []\<rparr>", OF refl t a]
    by (simp add: al)
  have ps: "playlist_step writable output_dir download_id (Suc 0) (r, st) = ([], st)" for r
    by (simp add: playlist_step_def)
  have lp: "song_loop (\<lambda>i s st. Inl e) download_id 1 0 [song_dict req]
              (\<lparr>completed = 0, failed = 0, downloaded_songs = []\<rparr>, st) =
        (single_song_intro download_id 1 @ [Download 0],
         Inr (\<lparr>completed = 0, failed = 1,
                downloaded_songs =
                  [[''title'' \<mapsto> PStr (strip (req_title req)),
                    ''artist'' \<mapsto> PStr (strip (req_artist req)),
                    ''album'' \<mapsto> PStr (if truthy_str (req_album req)
                                          then strip (the (req_album req))
                                          else ''Unknown Album''),
                    ''error'' \<mapsto> PStr (str_exn e), ''status'' \<mapsto> PStr ''error'']]\<rparr>, st))"
    unfolding song_loop.simps it by simp
  have len: "length [song_dict req] = 1" by simp
  have "process_song_download (\<lambda>i s st. Inl e) writable output_dir download_id
          [song_dict req] st =
        (Update download_id ''downloading'' (counters 1 0 0 0 [])
         # single_song_intro download_id 1 @ [Download 0],
         Inr (\<lparr>completed = 0, failed = 1,
                downloaded_songs =
                  [[''title'' \<mapsto> PStr (strip (req_title req)),
                    ''artist'' \<mapsto> PStr (strip (req_artist req)),
                    ''album'' \<mapsto> PStr (if truthy_str (req_album req)
                                          then strip (the (req_album req))
                                          else ''Unknown Album''),
                    ''error'' \<mapsto> PStr (str_exn e), ''status'' \<mapsto> PStr ''error'']]\<rparr>, st))"
    unfolding process_song_download_def len Let_def lp by (simp add: ps)
  then show ?thesis
    unfolding download_song_endpoint_def by (simp add: single_song_intro_def)
qed

text \<open>
  Claim C8. The job runner catches an exception that the awaited download of a song
  raises: it counts the song as failed in its local variables and appends an entry with
  the text of the exception to its local list of outcomes. But the handler writes
  nothing to the job table. For a single-song job, whatever the exception and whatever
  the request, no record of the job ever shows the failure: with no other request in
  between, the snapshots of the job are the five below, and the last one, which stays,
  has status \<^verbatim>\<open>downloading\<close>, progress 25, no failed song and an empty song list.
\<close>

theorem raised_exception_never_reaches_job_record:
  "snd (download_song_endpoint (\<lambda>i s st. Inl e) writable output_dir download_id req st)
     = Inr (\<lparr>completed = 0, failed = 1,
             downloaded_songs =
               [[''title'' \<mapsto> PStr (strip (req_title req)),
                 ''artist'' \<mapsto> PStr (strip (req_artist req)),
                 ''album'' \<mapsto> PStr (if truthy_str (req_album req)
                                       then strip (the (req_album req))
                                       else ''Unknown Album''),
                 ''error'' \<mapsto> PStr (str_exn e), ''status'' \<mapsto> PStr ''error'']]\<rparr>, st)
   \<and> map (snapshot download_id)
        (run (interleave
                (fst (download_song_endpoint (\<lambda>i s st. Inl e) writable output_dir download_id
                        req st)) [])
           idle_service)
       = [Some (''starting'', None, Some 1, Some 0, None),
          Some (''downloading'', Some 0, Some 1, Some 0, Some 0),
          Some (''downloading'', Some 10, Some 1, Some 0, Some 0),
          Some (''downloading'', Some 25, Some 1, Some 0, Some 0),
          Some (''downloading'', Some 25, Some 1, Some 0, Some 0)]
   \<and> map_option songs
        (db (last (run (interleave
                          (fst (download_song_endpoint (\<lambda>i s st. Inl e) writable output_dir
                                  download_id req st)) [])
                     idle_service)) download_id)
       = Some (Some [])"
  by (simp add: raising_song_job snapshot_def update_download_status_def counters_def
        no_kwargs_def idle_service_def)

section \<open>Progress of a job\<close>

lemma ops_progress_Nil: "ops_progress d [] = []"
  by (simp add: ops_progress_def map_filter_simps)

lemma ops_progress_append:
  "ops_progress d (xs @ ys) = ops_progress d xs @ ops_progress d ys"
  by (simp add: ops_progress_def map_filter_def)

lemma ops_progress_Update:
  "ops_progress d (Update d1 st kw # ops) =
     (if d1 = d then (case progress kw of None \<Rightarrow> ops_progress d ops
                                         | Some p \<Rightarrow> p # ops_progress d ops)
      else ops_progress d ops)"
  by (simp add: ops_progress_def map_filter_simps split: option.splits)

lemma ops_progress_Download: "ops_progress d (Download i # ops) = ops_progress d ops"
  by (simp add: ops_progress_def map_filter_simps)

lemma ops_progress_Suspend: "ops_progress d (Suspend # ops) = ops_progress d ops"
  by (simp add: ops_progress_def map_filter_simps)

lemma progress_counters: "progress (counters t c f p es) = Some p"
  by (simp add: counters_def)

lemma iteration_ops_shape:
  assumes "iteration call d n i s (r, st) = (ops, res)"
  shows "\<exists>processing final.
           ops = single_song_intro d n @ [Download i] @ processing @ final
           \<and> (processing = []
                \<or> (n = 1 \<and> processing =
                      [Update d ''downloading'' (counters 1 0 0 75 []), Suspend]))
           \<and> (final = []
                \<or> (\<exists>st1 c f es. final = Update d st1 (counters n c f (song_progress i n) es)
                                       # (if 1 < n then [Suspend] else [])))"
proof (cases "call i s st")
  case (Inl e)
  from Inl assms have "ops = single_song_intro d n @ [Download i] @ [] @ []"
    by (simp add: iteration_def)
  then show ?thesis by blast
next
  case (Inr x)
  then obtain success result_msg st1 where x: "call i s st = Inr ((success, result_msg), st1)"
    by (cases x) auto
  define processing where "processing =
                    (if success \<and> n = 1
                     then [Update d ''downloading'' (counters 1 0 0 75 []), Suspend]
                     else [])"
  define entry where "entry = (if success then song_entry s ''filepath'' result_msg ''completed''
                           else song_entry s ''error'' result_msg ''failed'')"
  have p: "processing = []
           \<or> (n = 1 \<and> processing = [Update d ''downloading'' (counters 1 0 0 75 []), Suspend])"
    by (simp add: processing_def)
  show ?thesis
  proof (cases entry)
    case (Inl e)
    from x Inl assms have "ops = single_song_intro d n @ [Download i] @ processing @ []"
      by (simp add: iteration_def Let_def processing_def entry_def)
    with p show ?thesis by blast
  next
    case (Inr ent)
    define r1 where "r1 = (if success then r\<lparr>completed := completed r + 1\<rparr>
                        else r\<lparr>failed := failed r + 1\<rparr>)"
    define r2 where "r2 = r1\<lparr>downloaded_songs := downloaded_songs r1 @ [ent]\<rparr>"
    from x Inr assms have
      "ops = single_song_intro d n @ [Download i] @ processing
               @ (Update d (song_status r2 n)
                    (counters n (completed r2) (failed r2) (song_progress i n)
                       (downloaded_songs r2))
                  # (if 1 < n then [Suspend] else []))"
      by (simp add: iteration_def Let_def processing_def entry_def r1_def r2_def)
    with p show ?thesis by blast
  qed
qed


lemma song_progress_mono: "song_progress i n \<le> song_progress (Suc i) n"
  by (simp add: song_progress_def div_le_mono)

lemma song_progress_lower: "(100 * i) div n \<le> song_progress i n"
  by (simp add: song_progress_def div_le_mono)

lemma ops_progress_intro:
  "ops_progress d (single_song_intro d n) = (if n = 1 then [10, 25] else [])"
  by (simp add: single_song_intro_def ops_progress_Update ops_progress_Suspend
        ops_progress_Nil progress_counters)

lemma ops_progress_wait: "ops_progress d (if c then [Suspend] else []) = []"
  by (simp add: ops_progress_Suspend ops_progress_Nil)

lemma iteration_progress:
  assumes it: "iteration call d n i s (r, st) = (ops, res)" and i: "i < n"
  shows "sorted (ops_progress d ops)
         \<and> (\<forall>p \<in> set (ops_progress d ops). (100 * i) div n \<le> p \<and> p \<le> song_progress i n)"
proof -
  from iteration_ops_shape [OF it] obtain processing final where
    ops: "ops = single_song_intro d n @ [Download i] @ processing @ final"
    and p: "processing = []
            \<or> (n = 1 \<and> processing = [Update d ''downloading'' (counters 1 0 0 75 []), Suspend])"
    and f: "final = []
            \<or> (\<exists>st1 c f es. final = Update d st1 (counters n c f (song_progress i n) es)
                                   # (if 1 < n then [Suspend] else []))"
    by blast
  from p have pp: "ops_progress d processing = [] \<or> (n = 1 \<and> ops_progress d processing = [75])"
    by (auto simp: ops_progress_Update ops_progress_Suspend ops_progress_Nil progress_counters)
  from f have fp: "ops_progress d final = [] \<or> ops_progress d final = [song_progress i n]"
    by (auto simp: ops_progress_Update ops_progress_wait ops_progress_Nil progress_counters)
  have all: "ops_progress d ops =
               (if n = 1 then [10, 25] else []) @ ops_progress d processing @ ops_progress d final"
    by (simp add: ops ops_progress_append ops_progress_intro ops_progress_Download
          ops_progress_Nil)
  show ?thesis
  proof (cases "n = 1")
    case True
    with i have i0: "i = 0" by simp
    have sp: "song_progress 0 (Suc 0) = 100" by (simp add: song_progress_def)
    from pp fp show ?thesis
      by (auto simp: all True sp i0)
  next
    case False
    with pp have "ops_progress d processing = []" by simp
    with fp False song_progress_lower [of i n] show ?thesis
      by (auto simp: all)
  qed
qed

lemma iteration_final_progress:
  assumes "call i s st = Inr (x, st1)" and "s ''title'' \<noteq> None" and "s ''artist'' \<noteq> None"
  shows "ops_progress d (fst (iteration call d n i s (r, st))) \<noteq> []
         \<and> last (ops_progress d (fst (iteration call d n i s (r, st)))) = song_progress i n"
proof -
  obtain success result_msg where x: "x = (success, result_msg)" by (cases x) auto
  define entry where "entry = (if success then song_entry s ''filepath'' result_msg ''completed''
                           else song_entry s ''error'' result_msg ''failed'')"
  obtain e1 where e1: "song_entry s ''filepath'' result_msg ''completed'' = Inr e1"
    using song_entry_Inr [OF assms(2,3)] by blast
  obtain e2 where e2: "song_entry s ''error'' result_msg ''failed'' = Inr e2"
    using song_entry_Inr [OF assms(2,3)] by blast
  obtain ent where ent: "entry = Inr ent"
    by (cases success) (simp_all add: entry_def e1 e2)
  define r1 where "r1 = (if success then r\<lparr>completed := completed r + 1\<rparr>
                        else r\<lparr>failed := failed r + 1\<rparr>)"
  define r2 where "r2 = r1\<lparr>downloaded_songs := downloaded_songs r1 @ [ent]\<rparr>"
  define processing where "processing =
                    (if success \<and> n = 1
                     then [Update d ''downloading'' (counters 1 0 0 75 []), Suspend]
                     else [])"
  from assms(1) x ent have
    "fst (iteration call d n i s (r, st)) =
       (single_song_intro d n @ [Download i] @ processing)
         @ (Update d (song_status r2 n)
              (counters n (completed r2) (failed r2) (song_progress i n)
                 (downloaded_songs r2))
            # (if 1 < n then [Suspend] else []))"
    by (simp add: iteration_def Let_def processing_def entry_def r1_def r2_def)
  then have "ops_progress d (fst (iteration call d n i s (r, st))) =
               ops_progress d (single_song_intro d n @ [Download i] @ processing)
                 @ [song_progress i n]"
    by (simp add: ops_progress_append ops_progress_Update ops_progress_wait
          ops_progress_Nil progress_counters del: append_assoc)
  then show ?thesis by simp
qed

lemma song_loop_progress:
  assumes "song_loop call d n i ss (r, st) = (ops, res)" and "i + length ss = n"
  shows "sorted (ops_progress d ops)
         \<and> (\<forall>p \<in> set (ops_progress d ops). (100 * i) div n \<le> p)"
  using assms
proof (induction ss arbitrary: i r st ops res)
  case Nil
  then show ?case by (simp add: ops_progress_Nil)
next
  case (Cons s ss)
  obtain ops0 res0 where it: "iteration call d n i s (r, st) = (ops0, res0)"
    by (cases "iteration call d n i s (r, st)") auto
  from Cons.prems(2) have i: "i < n" by simp
  note ip = iteration_progress [OF it i]
  show ?case
  proof (cases res0)
    case (Inl e)
    with Cons.prems(1) it have "ops = ops0" by simp
    with ip show ?thesis by simp
  next
    case (Inr rs1)
    obtain r1 st1 where rs1: "rs1 = (r1, st1)" by (cases rs1) auto
    obtain ops1 res1 where lp: "song_loop call d n (Suc i) ss (r1, st1) = (ops1, res1)"
      by (cases "song_loop call d n (Suc i) ss (r1, st1)") auto
    from Cons.prems(1) it Inr rs1 lp have o: "ops = ops0 @ ops1" by simp
    from Cons.prems(2) have "Suc i + length ss = n" by simp
    from Cons.IH [OF lp this]
    have s1: "sorted (ops_progress d ops1)"
      and b1: "\<forall>p \<in> set (ops_progress d ops1). (100 * Suc i) div n \<le> p"
      by simp_all
    have sp: "song_progress i n = (100 * Suc i) div n" by (simp add: song_progress_def)
    have "sorted (ops_progress d ops0 @ ops_progress d ops1)"
      unfolding sorted_append using ip s1 b1 sp by fastforce
    moreover have "\<forall>p \<in> set (ops_progress d ops0 @ ops_progress d ops1). (100 * i) div n \<le> p"
    proof
      fix p assume "p \<in> set (ops_progress d ops0 @ ops_progress d ops1)"
      then consider "p \<in> set (ops_progress d ops0)" | "p \<in> set (ops_progress d ops1)" by auto
      then show "(100 * i) div n \<le> p"
      proof cases
        case 1 with ip show ?thesis by simp
      next
        case 2
        with b1 have "(100 * Suc i) div n \<le> p" by simp
        moreover have "(100 * i) div n \<le> (100 * Suc i) div n" by (simp add: div_le_mono)
        ultimately show ?thesis by simp
      qed
    qed
    ultimately show ?thesis by (simp add: o ops_progress_append)
  qed
qed

lemma playlist_step_progress: "ops_progress d (fst (playlist_step w dir d n rs)) = []"
  by (cases rs)
     (simp add: playlist_step_def Let_def ops_progress_Update ops_progress_Nil no_kwargs_def
        split: sum.splits prod.splits)

lemma process_song_download_progress:
  "sorted (ops_progress d (fst (process_song_download call w dir d song_list st)))"
proof -
  obtain ops res where lp: "song_loop call d (length song_list) 0 song_list
                (\<lparr>completed = 0, failed = 0, downloaded_songs = []\<rparr>, st) = (ops, res)"
    by (cases "song_loop call d (length song_list) 0 song_list
                (\<lparr>completed = 0, failed = 0, downloaded_songs = []\<rparr>, st)") auto
  from song_loop_progress [OF lp] have s: "sorted (ops_progress d ops)" by simp
  show ?thesis
  proof (cases res)
    case (Inl e)
    with lp s show ?thesis
      by (simp add: process_song_download_def Let_def ops_progress_Update progress_counters)
  next
    case (Inr rs)
    obtain r st1 where rs: "rs = (r, st1)" by (cases rs) auto
    obtain ops1 st2 where ps: "playlist_step w dir d (length song_list) (r, st1) = (ops1, st2)"
      by (cases "playlist_step w dir d (length song_list) (r, st1)") auto
    from playlist_step_progress [of d w dir "length song_list" "(r, st1)"] ps
    have "ops_progress d ops1 = []" by simp
    with Inr rs lp ps s show ?thesis
      by (simp add: process_song_download_def Let_def ops_progress_Update progress_counters
            ops_progress_append)
  qed
qed

lemma song_endpoint_progress:
  "sorted (ops_progress d (fst (download_song_endpoint call w dir d req st)))"
proof -
  obtain ops res where p: "process_song_download call w dir d [song_dict req] st = (ops, res)"
    by (cases "process_song_download call w dir d [song_dict req] st") auto
  from process_song_download_progress [of d call w dir "[song_dict req]" st] p
  have "sorted (ops_progress d ops)" by simp
  then show ?thesis
    by (simp add: download_song_endpoint_def p ops_progress_Update ops_progress_Suspend
          no_kwargs_def)
qed

lemma album_endpoint_progress:
  "sorted (ops_progress d (fst (download_album_endpoint tenv call w dir d areq st)))"
proof -
  define tracks where
    "tracks = get_album_tracks tenv (strip (areq_artist areq)) (strip (areq_album areq))"
  obtain ops res where p: "process_song_download call w dir d tracks st = (ops, res)"
    by (cases "process_song_download call w dir d tracks st") auto
  from process_song_download_progress [of d call w dir tracks st] p
  have "sorted (ops_progress d ops)" by simp
  then show ?thesis
    by (simp add: download_album_endpoint_def Let_def p ops_progress_Update
          ops_progress_Suspend ops_progress_Nil no_kwargs_def tracks_def [symmetric])
qed

lemma runner_ops_Nil: "runner_ops [] = []"
  by (simp add: runner_ops_def map_filter_simps)

lemma runner_ops_Runner: "runner_ops (Runner op # acts) = op # runner_ops acts"
  by (simp add: runner_ops_def map_filter_simps)

lemma runner_ops_Client: "runner_ops (Client request # acts) = runner_ops acts"
  by (simp add: runner_ops_def map_filter_simps)

lemma runner_ops_Clients: "runner_ops (map Client requests @ acts) = runner_ops acts"
  by (induction requests) (simp_all add: runner_ops_Client)

lemma runner_ops_only_Clients: "runner_ops (map Client requests) = []"
  using runner_ops_Clients [of requests "[]"] by (simp add: runner_ops_Nil)

lemma ops_progress_interleave:
  "ops_progress d (runner_ops (interleave ops sched)) = ops_progress d ops"
  by (induction ops sched rule: interleave.induct)
     (simp_all add: runner_ops_Runner runner_ops_Clients runner_ops_only_Clients
        ops_progress_Nil ops_progress_Update ops_progress_Download ops_progress_Suspend
        split: option.splits)

lemma progress_seen_Nil: "progress_seen d [] = []"
  by (simp add: progress_seen_def map_filter_simps)

lemma progress_seen_Cons:
  "progress_seen d (s # trace) =
     (case shown_progress d s of None \<Rightarrow> progress_seen d trace
                               | Some p \<Rightarrow> p # progress_seen d trace)"
  by (simp add: progress_seen_def shown_progress_def map_filter_simps split: option.splits)

lemma cancel_shown_progress:
  "shown_progress d (act (Client (Cancel i)) s) = None
   \<or> shown_progress d (act (Client (Cancel i)) s) = shown_progress d s"
  by (simp add: shown_progress_def cancel_download_status_def get_download_status_def
        update_download_status_def no_kwargs_def split: option.splits)

text \<open>One action: either it writes a new progress value, or it writes none and the
  value shown is gone or the one shown before.\<close>

lemma act_progress_cases:
  obtains (new) p where
      "ops_progress d (runner_ops (a # acts)) = p # ops_progress d (runner_ops acts)"
      "shown_progress d (act a s) = Some p"
    | (gone) "ops_progress d (runner_ops (a # acts)) = ops_progress d (runner_ops acts)"
      "shown_progress d (act a s) = None"
    | (same) "ops_progress d (runner_ops (a # acts)) = ops_progress d (runner_ops acts)"
      "shown_progress d (act a s) = shown_progress d s"
proof -
  have "(\<exists>p. ops_progress d (runner_ops (a # acts)) = p # ops_progress d (runner_ops acts)
        \<and> shown_progress d (act a s) = Some p)
   \<or> (ops_progress d (runner_ops (a # acts)) = ops_progress d (runner_ops acts)
       \<and> (shown_progress d (act a s) = None
            \<or> shown_progress d (act a s) = shown_progress d s))"
  proof (cases a)
  case (Client request)
  obtain i where "request = Cancel i" by (cases request) auto
  with Client cancel_shown_progress [of d i s] show ?thesis
    by (simp add: runner_ops_Client)
next
  case (Runner op)
  show ?thesis
  proof (cases op)
    case (Download i)
    with Runner show ?thesis
      by (simp add: runner_ops_Runner ops_progress_Download shown_progress_def)
  next
    case Suspend
    with Runner show ?thesis
      by (simp add: runner_ops_Runner ops_progress_Suspend)
  next
    case (Update d1 st kw)
    show ?thesis
    proof (cases "d1 = d")
      case False
      with Runner Update show ?thesis
        by (simp add: runner_ops_Runner ops_progress_Update shown_progress_def
              update_download_status_def)
    next
      case True
      with Runner Update show ?thesis
        by (cases "progress kw")
           (simp_all add: runner_ops_Runner ops_progress_Update shown_progress_def
              update_download_status_def)
    qed
  qed
  qed
  then show ?thesis
  proof (elim disjE exE conjE)
    fix p
    assume "ops_progress d (runner_ops (a # acts)) = p # ops_progress d (runner_ops acts)"
      and "shown_progress d (act a s) = Some p"
    then show thesis by (rule new)
  next
    assume "ops_progress d (runner_ops (a # acts)) = ops_progress d (runner_ops acts)"
      and "shown_progress d (act a s) = None"
    then show thesis by (rule gone)
  next
    assume "ops_progress d (runner_ops (a # acts)) = ops_progress d (runner_ops acts)"
      and "shown_progress d (act a s) = shown_progress d s"
    then show thesis by (rule same)
  qed
qed

lemma run_progress_sorted:
  assumes "sorted (ops_progress d (runner_ops acts))"
    and "\<forall>q. shown_progress d s = Some q \<longrightarrow>
             (\<forall>p \<in> set (ops_progress d (runner_ops acts)). q \<le> p)"
  shows "sorted (progress_seen d (run acts s))
         \<and> set (progress_seen d (run acts s))
             \<subseteq> set (ops_progress d (runner_ops acts)) \<union> set_option (shown_progress d s)"
  using assms
proof (induction acts arbitrary: s)
  case Nil
  show ?case by (simp add: progress_seen_Nil)
next
  case (Cons a acts)
  let ?P = "ops_progress d (runner_ops (a # acts))"
  let ?P' = "ops_progress d (runner_ops acts)"
  let ?s' = "act a s"
  show ?case
  proof (cases rule: act_progress_cases [of d a acts s])
    case (new p)
    from Cons.prems(1) new(1) have s': "sorted ?P'" and le: "\<forall>x \<in> set ?P'. p \<le> x"
      by simp_all
    from le new(2) have b: "\<forall>q. shown_progress d ?s' = Some q \<longrightarrow> (\<forall>x \<in> set ?P'. q \<le> x)"
      by simp
    from Cons.IH [OF s' b] new(2)
    have ih: "sorted (progress_seen d (run acts ?s'))"
      "set (progress_seen d (run acts ?s')) \<subseteq> set ?P' \<union> {p}"
      by simp_all
    from ih(2) le have "\<forall>x \<in> set (progress_seen d (run acts ?s')). p \<le> x" by auto
    with ih new show ?thesis
      by (auto simp: progress_seen_Cons)
  next
    case gone
    from Cons.prems(1) gone(1) have s': "sorted ?P'" by simp
    from gone(2) have b: "\<forall>q. shown_progress d ?s' = Some q \<longrightarrow> (\<forall>x \<in> set ?P'. q \<le> x)"
      by simp
    from Cons.IH [OF s' b] gone(2)
    have ih: "sorted (progress_seen d (run acts ?s'))"
      "set (progress_seen d (run acts ?s')) \<subseteq> set ?P'"
      by simp_all
    with gone show ?thesis
      by (auto simp: progress_seen_Cons)
  next
    case same
    from Cons.prems(1) same(1) have s': "sorted ?P'" by simp
    from Cons.prems(2) same
    have b: "\<forall>q. shown_progress d ?s' = Some q \<longrightarrow> (\<forall>x \<in> set ?P'. q \<le> x)"
      by simp
    from Cons.IH [OF s' b] same(2)
    have ih: "sorted (progress_seen d (run acts ?s'))"
      "set (progress_seen d (run acts ?s')) \<subseteq> set ?P' \<union> set_option (shown_progress d s)"
      by simp_all
    show ?thesis
    proof (cases "shown_progress d s")
      case None
      with ih same show ?thesis by (simp add: progress_seen_Cons)
    next
      case (Some q)
      from b same(2) Some have "\<forall>x \<in> set ?P'. q \<le> x" by simp
      with ih(2) Some have "\<forall>x \<in> set (progress_seen d (run acts ?s')). q \<le> x" by auto
      with ih Some same show ?thesis by (auto simp: progress_seen_Cons)
    qed
  qed
qed

lemma run_after_first_write:
  assumes "sorted (ops_progress d ops)" and "progress kw = None"
  shows "sorted (progress_seen d (run (interleave (Update d st kw # ops) sched) s0))"
proof -
  define s1 where "s1 = act (Runner (Update d st kw)) s0"
  have shown: "shown_progress d s1 = None"
    by (simp add: s1_def shown_progress_def update_download_status_def assms(2))
  have "sorted (ops_progress d (runner_ops (interleave ops sched)))"
    by (simp add: ops_progress_interleave assms(1))
  from run_progress_sorted [OF this, of s1] shown
  have "sorted (progress_seen d (run (interleave ops sched) s1))" by simp
  moreover have "run (interleave (Update d st kw # ops) sched) s0
                   = s1 # run (interleave ops sched) s1"
    by (simp add: s1_def)
  ultimately show ?thesis
    by (simp only: progress_seen_Cons shown option.case)
qed

lemma endpoints_progress_sorted:
  assumes "ops = fst (download_song_endpoint call w dir d req st)
           \<or> ops = fst (download_album_endpoint tenv call w dir d areq st)"
  shows "sorted (progress_seen d (run (interleave ops sched) s0))"
  using assms
proof
  assume o: "ops = fst (download_song_endpoint call w dir d req st)"
  obtain ops1 res where p: "process_song_download call w dir d [song_dict req] st = (ops1, res)"
    by (cases "process_song_download call w dir d [song_dict req] st") auto
  have e: "ops = Update d ''starting''
                   (no_kwargs\<lparr>total_songs := Some 1, completed_songs := Some 0\<rparr>)
                 # Suspend # ops1"
    by (simp add: o download_song_endpoint_def p)
  from process_song_download_progress [of d call w dir "[song_dict req]" st] p
  have "sorted (ops_progress d (Suspend # ops1))"
    by (simp add: ops_progress_Suspend)
  then show ?thesis
    unfolding e by (rule run_after_first_write) (simp add: no_kwargs_def)
next
  assume o: "ops = fst (download_album_endpoint tenv call w dir d areq st)"
  define tracks where
    "tracks = get_album_tracks tenv (strip (areq_artist areq)) (strip (areq_album areq))"
  obtain ops1 res where p: "process_song_download call w dir d tracks st = (ops1, res)"
    by (cases "process_song_download call w dir d tracks st") auto
  define rest where
    "rest = (if tracks = [] \<or> 20 < length tracks then []
             else Update d ''starting''
                    (no_kwargs\<lparr>total_songs := Some (length tracks),
                       completed_songs := Some 0, songs := Some []\<rparr>)
                  # Suspend # ops1)"
  have e: "ops = Update d ''searching_tracks'' no_kwargs # rest"
    by (simp add: o download_album_endpoint_def Let_def p tracks_def [symmetric] rest_def)
  from process_song_download_progress [of d call w dir tracks st] p
  have "sorted (ops_progress d rest)"
    by (simp add: rest_def ops_progress_Update ops_progress_Suspend ops_progress_Nil
          no_kwargs_def)
  then show ?thesis
    unfolding e by (rule run_after_first_write) (simp add: no_kwargs_def)
qed

lemma progress_seen_member:
  assumes "k < length trace" and "shown_progress d (trace ! k) = Some q"
  shows "q \<in> set (progress_seen d trace)"
  using assms
proof (induction trace arbitrary: k)
  case Nil
  then show ?case by simp
next
  case (Cons s trace)
  show ?case
  proof (cases k)
    case 0
    with Cons.prems(2) show ?thesis by (simp add: progress_seen_Cons)
  next
    case (Suc k')
    with Cons.prems have "k' < length trace" "shown_progress d (trace ! k') = Some q"
      by simp_all
    from Cons.IH [OF this] show ?thesis
      by (simp add: progress_seen_Cons split: option.splits)
  qed
qed

lemma progress_seen_nth:
  assumes "sorted (progress_seen d trace)" and "j < k" and "k < length trace"
    and "shown_progress d (trace ! j) = Some p" and "shown_progress d (trace ! k) = Some q"
  shows "p \<le> q"
  using assms
proof (induction trace arbitrary: j k)
  case Nil
  then show ?case by simp
next
  case (Cons s trace)
  from Cons.prems(2) obtain k' where k: "k = Suc k'" by (cases k) auto
  with Cons.prems(3,5) have k': "k' < length trace" "shown_progress d (trace ! k') = Some q"
    by simp_all
  have tl: "sorted (progress_seen d trace)"
    using Cons.prems(1) by (cases "shown_progress d s") (simp_all add: progress_seen_Cons)
  show ?case
  proof (cases j)
    case 0
    with Cons.prems(4) have s: "shown_progress d s = Some p" by simp
    from k' have "q \<in> set (progress_seen d trace)"
      by (rule progress_seen_member)
    with Cons.prems(1) s show ?thesis by (simp add: progress_seen_Cons)
  next
    case (Suc j')
    with Cons.prems(2,4) k have "j' < k'" "shown_progress d (trace ! j') = Some p" by simp_all
    with Cons.IH [OF tl _ k'(1) _ k'(2)] show ?thesis by blast
  qed
qed

lemma iteration_raising_progress:
  assumes "call i s st = Inl e"
  shows "ops_progress d (fst (iteration call d n i s (r, st))) = (if n = 1 then [10, 25] else [])"
  using assms
  by (simp add: iteration_def ops_progress_append ops_progress_intro ops_progress_Download
        ops_progress_Nil)

text \<open>
  Claim C4, amended. For a job created by one of the two download endpoints and any
  schedule of cancel requests, take any two snapshots of the job, an earlier and a later
  one, that both show a progress value: the later value is not smaller. (A snapshot need
  not show a value: the records written at the creation of the job and by a cancel
  request carry none.) When the download of song \<open>i\<close> of \<open>n\<close> returns (\<open>n\<close> at most
  20, as for every job), the last progress value that the pass for this song writes is
  the integer quotient of \<open>100 * (i + 1)\<close> by \<open>n\<close>. When the download raises, the pass
  writes no progress value for the song: for a single-song job it has written 10 and 25
  before the download, and otherwise nothing.
\<close>

theorem progress_never_decreases_where_shown:
  assumes "ops = fst (download_song_endpoint call writable output_dir download_id req st)
           \<or> ops = fst (download_album_endpoint tenv call writable output_dir download_id
                          album_req st)"
  shows "(j < k \<and> k < length (run (interleave ops sched) s0)
            \<and> shown_progress download_id (run (interleave ops sched) s0 ! j) = Some p
            \<and> shown_progress download_id (run (interleave ops sched) s0 ! k) = Some q \<longrightarrow>
            p \<le> q)
         \<and> (call i s st1 = Inr (x, st2) \<and> s ''title'' \<noteq> None \<and> s ''artist'' \<noteq> None
              \<and> i < n \<and> n \<le> 20 \<longrightarrow>
              ops_progress download_id (fst (iteration call download_id n i s (r, st1))) \<noteq> []
              \<and> last (ops_progress download_id
                        (fst (iteration call download_id n i s (r, st1))))
                  = (100 * (i + 1)) div n)
         \<and> (call i s st1 = Inl e \<longrightarrow>
              ops_progress download_id (fst (iteration call download_id n i s (r, st1)))
                = (if n = 1 then [10, 25] else []))"
proof (intro conjI impI)
  assume h: "j < k \<and> k < length (run (interleave ops sched) s0)
            \<and> shown_progress download_id (run (interleave ops sched) s0 ! j) = Some p
            \<and> shown_progress download_id (run (interleave ops sched) s0 ! k) = Some q"
  have "sorted (progress_seen download_id (run (interleave ops sched) s0))"
    using assms by (rule endpoints_progress_sorted)
  from progress_seen_nth [OF this, of j k p q] h show "p \<le> q" by blast
next
  assume h: "call i s st1 = Inr (x, st2) \<and> s ''title'' \<noteq> None \<and> s ''artist'' \<noteq> None
              \<and> i < n \<and> n \<le> 20"
  then have c: "call i s st1 = Inr (x, st2)" and t: "s ''title'' \<noteq> None"
    and a: "s ''artist'' \<noteq> None" by simp_all
  note f = iteration_final_progress [of call i s st1 x st2 download_id n r, OF c t a]
  from f show "ops_progress download_id (fst (iteration call download_id n i s (r, st1))) \<noteq> []"
    by simp
  from f show "last (ops_progress download_id
                        (fst (iteration call download_id n i s (r, st1))))
                  = (100 * (i + 1)) div n"
    by (simp add: song_progress_def)
next
  assume "call i s st1 = Inl e"
  then show "ops_progress download_id (fst (iteration call download_id n i s (r, st1)))
                = (if n = 1 then [10, 25] else [])"
    by (rule iteration_raising_progress)
qed

lemma always_found_second_song:
  "acquire (\<lambda>i. always_found) ''music'' ''job-1'' 1 bad_guy no_files =
     Inr ((True, ''music/Billie Eilish - bad guy.mp3''),
          \<lparr>files = [''music/Billie Eilish - bad guy.mp3'' \<mapsto> 4096],
           invoked = [''Billie Eilish bad guy official audio lyrics'']\<rparr>)"
  apply (simp add: acquire_def download_song_async_def bad_guy_def getitem_def
       build_search_queries_def get_truthy_def Let_def song_path_def path_join_def)
  apply (simp add: query_attempt_def always_found_def no_files_def Let_def)
  apply (simp add: enrich_metadata_def enrich_body_def services_down_def getitem_def
        fix_metadata_def tagger_ok_def clean_tags_def)
  done

theorem progress_never_decreases_where_shown_witness:
  "map (shown_progress ''job-3'') cancelled_album_run
     = [None, None, Some 0, Some 0, None, Some 50, Some 50, Some 100, None]
   \<and> (3::nat) < 5 \<and> 5 < length cancelled_album_run
   \<and> shown_progress ''job-3'' (cancelled_album_run ! 3) = Some 0
   \<and> shown_progress ''job-3'' (cancelled_album_run ! 5) = Some 50
   \<and> (0::nat) \<le> 50
   \<and> bad_guy ''title'' \<noteq> None \<and> bad_guy ''artist'' \<noteq> None \<and> (1::nat) < 3 \<and> (3::nat) \<le> 20
   \<and> last (ops_progress ''job-1''
              (fst (iteration (acquire (\<lambda>i. always_found) ''music'' ''job-1'') ''job-1'' 3 1
                      bad_guy (fresh_runner, no_files)))) = 66
   \<and> acquire (\<lambda>i. always_found) ''music'' ''job-5'' 0 numbered_song no_files
       = Inl (AttributeError ''int'' ''strip'')
   \<and> ops_progress ''job-5''
        (fst (iteration (acquire (\<lambda>i. always_found) ''music'' ''job-5'') ''job-5'' 2 0
                numbered_song (fresh_runner, no_files))) = []"
proof -
  have e: "map (shown_progress ''job-3'') cancelled_album_run
     = [None, None, Some 0, Some 0, None, Some 50, Some 50, Some 100, None]"
    by code_simp
  then have len: "length cancelled_album_run = 9"
    using length_map [of "shown_progress ''job-3''" cancelled_album_run] by simp
  from e len have n3: "shown_progress ''job-3'' (cancelled_album_run ! 3) = Some 0"
    using nth_map [of 3 cancelled_album_run "shown_progress ''job-3''"] by simp
  from e len have n5: "shown_progress ''job-3'' (cancelled_album_run ! 5) = Some 50"
    using nth_map [of 5 cancelled_album_run "shown_progress ''job-3''"] by simp
  have h: "bad_guy ''title'' \<noteq> None" "bad_guy ''artist'' \<noteq> None"
    by (simp_all add: bad_guy_def)
  have raised: "acquire (\<lambda>i. always_found) ''music'' ''job-5'' 0 numbered_song no_files
     = Inl (AttributeError ''int'' ''strip'')"
    by (simp add: acquire_def download_song_async_def numbered_song_def getitem_def
          build_search_queries_def get_truthy_def)
  note t = progress_never_decreases_where_shown
    [where call = "acquire (\<lambda>i. always_found) ''music'' ''job-3''" and writable = True
       and output_dir = "''music''" and download_id = "''job-3''" and album_req = muse_request
       and tenv = directory_two_tracks
       and st = no_files and sched = "[[], [Cancel ''job-3'']]" and ?s0.0 = idle_service
       and j = 3 and k = 5 and p = 0 and q = 50,
     OF disjI2 [OF refl]]
  note u = progress_never_decreases_where_shown
    [where call = "acquire (\<lambda>i. always_found) ''music'' ''job-1''" and writable = True
       and output_dir = "''music''" and download_id = "''job-1''" and req = bad_guy_request
       and st = no_files
       and i = 1 and s = bad_guy and ?st1.0 = no_files and n = 3 and r = fresh_runner,
     OF disjI1 [OF refl]]
  note v = progress_never_decreases_where_shown
    [where call = "acquire (\<lambda>i. always_found) ''music'' ''job-5''" and writable = True
       and output_dir = "''music''" and download_id = "''job-5''" and req = bad_guy_request
       and st = no_files
       and i = 0 and s = numbered_song and ?st1.0 = no_files and n = 2 and r = fresh_runner
       and e = "AttributeError ''int'' ''strip''",
     OF disjI1 [OF refl]]
  from t n3 n5 len have le: "(0::nat) \<le> 50"
    by (simp add: cancelled_album_run_def)
  from u always_found_second_song h
  have l: "last (ops_progress ''job-1''
              (fst (iteration (acquire (\<lambda>i. always_found) ''music'' ''job-1'') ''job-1'' 3 1
                      bad_guy (fresh_runner, no_files)))) = (100 * (1 + 1)) div 3"
    by simp
  from v raised
  have w: "ops_progress ''job-5''
        (fst (iteration (acquire (\<lambda>i. always_found) ''music'' ''job-5'') ''job-5'' 2 0
                numbered_song (fresh_runner, no_files))) = []"
    by simp
  from e len n3 n5 le h l raised w show ?thesis by simp
qed

text \<open>
  Claim C4 as stated fails. In the run of an album job that is cancelled while its
  first download is under way, the snapshot after the cancel request shows no progress
  value, between one that shows 0 and one that shows 50; and the last snapshot shows
  none either.
\<close>

theorem cancel_snapshot_shows_no_progress:
  "map (shown_progress ''job-3'') cancelled_album_run
     = [None, None, Some 0, Some 0, None, Some 50, Some 50, Some 100, None]
   \<and> map_option status (db (cancelled_album_run ! 4) ''job-3'') = Some ''cancelled''
   \<and> \<not> never_drops (map (shown_progress ''job-3'') cancelled_album_run)"
  by code_simp

end
